theory Spec2Isabelle
  imports Complex_Main "HOL-Library.Multiset"
begin

section \<open>Tensors and the framework primitives the notebook calls\<close>

text \<open>
  The notebook is a sequence of calls into PyTorch.  A tensor is its shape together with its
  entries in row-major order; float tensors carry \<open>real\<close> entries and the operations on them
  are exact (what rounding to 32-bit floats changes is the subject of the section on the
  numbers a float tensor holds), index and label tensors carry \<open>nat\<close> entries,
  comparison results carry \<open>bool\<close> entries.  Every Python exception the calls can raise is a
  value of \<open>error\<close>.  The mean of an empty tensor is NaN in PyTorch; NaN is no real number and
  is the outcome \<open>NanValue\<close> here.
\<close>

datatype error =
    RuntimeError | IndexError | ValueError | AttributeError | ZeroDivisionError
  | StopIteration | NanValue | OutOfModel

record 'a tensor =
  shape :: "nat list"
  dat :: "'a list"

definition wf_tensor :: "'a tensor \<Rightarrow> bool" where
  "wf_tensor t = (length (dat t) = prod_list (shape t))"

definition and_then :: "error + 'a \<Rightarrow> ('a \<Rightarrow> error + 'b) \<Rightarrow> error + 'b" where
  "and_then m f = (case m of Inl e \<Rightarrow> Inl e | Inr v \<Rightarrow> f v)"

text \<open>The \<open>n\<close> rows of length \<open>m\<close> of a row-major entry list.\<close>

definition rows :: "nat \<Rightarrow> nat \<Rightarrow> 'a list \<Rightarrow> 'a list list" where
  "rows n m xs = map (\<lambda>i. take m (drop (i * m) xs)) [0..<n]"

text \<open>\<open>t.view(*shp)\<close>: the same entries under another shape of the same size.\<close>

definition view :: "'a tensor \<Rightarrow> nat list \<Rightarrow> error + 'a tensor" where
  "view t shp = (if prod_list shp = length (dat t) then Inr \<lparr>shape = shp, dat = dat t\<rparr>
                 else Inl RuntimeError)"

text \<open>
  \<open>x.view(x.shape[0], -1)\<close>: \<open>x.shape[0]\<close> raises IndexError on a 0-dimensional tensor; the
  inferred dimension is ambiguous (RuntimeError) when the first dimension is 0, and the
  request is invalid when the first dimension does not divide the number of entries.
\<close>

definition view_flat :: "'a tensor \<Rightarrow> error + 'a tensor" where
  "view_flat x =
     (case shape x of
        [] \<Rightarrow> Inl IndexError
      | n # _ \<Rightarrow>
          if n = 0 then Inl RuntimeError
          else if length (dat x) mod n \<noteq> 0 then Inl RuntimeError
          else Inr \<lparr>shape = [n, length (dat x) div n], dat = dat x\<rparr>)"

text \<open>
  \<open>nn.Linear(in_features, out_features)\<close>: a weight of \<open>out_features\<close> rows of
  \<open>in_features\<close> entries and a bias of \<open>out_features\<close> entries; the constructor draws their
  initial values at random and guarantees the shapes (\<open>wf_linear\<close>).  Applied to a tensor
  whose last dimension is \<open>in_features\<close> it maps every row \<open>x\<close> to \<open>x W\<^sup>T + b\<close>.
\<close>

record linear =
  in_features :: nat
  out_features :: nat
  weight :: "real list list"
  bias :: "real list"

definition wf_linear :: "nat \<Rightarrow> nat \<Rightarrow> linear \<Rightarrow> bool" where
  "wf_linear i o' l =
     (in_features l = i \<and> out_features l = o' \<and> length (weight l) = o' \<and>
      list_all (\<lambda>w. length w = i) (weight l) \<and> length (bias l) = o')"

definition dot :: "real list \<Rightarrow> real list \<Rightarrow> real" where
  "dot w x = sum_list (map2 (*) w x)"

definition affine :: "linear \<Rightarrow> real list \<Rightarrow> real list" where
  "affine l x = map2 (\<lambda>w b. dot w x + b) (weight l) (bias l)"

definition linear_fwd :: "linear \<Rightarrow> real tensor \<Rightarrow> error + real tensor" where
  "linear_fwd l x =
     (if shape x = [] then Inl RuntimeError
      else if last (shape x) \<noteq> in_features l then Inl RuntimeError
      else Inr \<lparr>shape = butlast (shape x) @ [out_features l],
                dat = concat (map (affine l)
                        (rows (prod_list (butlast (shape x))) (in_features l) (dat x)))\<rparr>)"

text \<open>\<open>F.relu\<close> and \<open>torch.exp\<close> work entry by entry.\<close>

definition relu :: "real tensor \<Rightarrow> real tensor" where
  "relu x = x\<lparr>dat := map (max 0) (dat x)\<rparr>"

definition exp_t :: "real tensor \<Rightarrow> real tensor" where
  "exp_t x = x\<lparr>dat := map exp (dat x)\<rparr>"

text \<open>
  \<open>nn.Dropout(p)\<close>: in training mode every entry is zeroed with probability \<open>p\<close> and the
  surviving entries are scaled by \<open>1 / (1 - p)\<close>; in evaluation mode the module returns its
  input.  The random draw is an explicit argument: \<open>keep i\<close> tells whether entry \<open>i\<close>
  survives.
\<close>

definition dropout :: "real \<Rightarrow> bool \<Rightarrow> (nat \<Rightarrow> bool) \<Rightarrow> real tensor \<Rightarrow> real tensor" where
  "dropout p training_mode keep x =
     (if training_mode
      then x\<lparr>dat := map (\<lambda>(i, v). if keep i then v / (1 - p) else 0) (enumerate 0 (dat x))\<rparr>
      else x)"

text \<open>
  \<open>F.log_softmax(x, dim=1)\<close>: on a tensor of shape \<open>(n, m)\<close>, every row \<open>r\<close> becomes
  \<open>r\<^sub>j - ln (\<Sum>\<^sub>k exp r\<^sub>k)\<close>.  Dimension 1 does not exist below rank 2 (IndexError).  The
  forward pass only ever reaches this call with a rank-2 tensor; higher ranks are outside
  the model.
\<close>

definition log_softmax_row :: "real list \<Rightarrow> real list" where
  "log_softmax_row r = map (\<lambda>v. v - ln (sum_list (map exp r))) r"

definition log_softmax_dim1 :: "real tensor \<Rightarrow> error + real tensor" where
  "log_softmax_dim1 x =
     (case shape x of
        [] \<Rightarrow> Inl IndexError
      | [_] \<Rightarrow> Inl IndexError
      | [n, m] \<Rightarrow> Inr (x\<lparr>dat := concat (map log_softmax_row (rows n m (dat x)))\<rparr>)
      | _ \<Rightarrow> Inl OutOfModel)"

section \<open>The two Classifier classes\<close>

text \<open>
  Both classes hold four linear layers; the second one also holds \<open>nn.Dropout(p=0.2)\<close>.
  \<open>training\<close> is the mode flag of \<open>nn.Module\<close>: true after construction, cleared by
  \<open>model.eval()\<close>, set by \<open>model.train()\<close>.  \<open>dropout_p\<close> is \<open>None\<close> for the first class.
\<close>

record classifier =
  fc1 :: linear
  fc2 :: linear
  fc3 :: linear
  fc4 :: linear
  dropout_p :: "real option"
  training :: bool

definition wf_classifier :: "classifier \<Rightarrow> bool" where
  "wf_classifier m =
     (wf_linear 784 256 (fc1 m) \<and> wf_linear 256 128 (fc2 m) \<and>
      wf_linear 128 64 (fc3 m) \<and> wf_linear 64 10 (fc4 m))"

text \<open>The three random masks one forward pass of the dropout model draws.\<close>

record masks =
  mask1 :: "nat \<Rightarrow> bool"
  mask2 :: "nat \<Rightarrow> bool"
  mask3 :: "nat \<Rightarrow> bool"

text \<open>\<open>Classifier.forward\<close> of the first class (no dropout).\<close>

definition forward :: "classifier \<Rightarrow> real tensor \<Rightarrow> error + real tensor" where
  "forward m x =
     and_then (view_flat x) (\<lambda>x0.
     and_then (linear_fwd (fc1 m) x0) (\<lambda>a1.
     and_then (linear_fwd (fc2 m) (relu a1)) (\<lambda>a2.
     and_then (linear_fwd (fc3 m) (relu a2)) (\<lambda>a3.
     and_then (linear_fwd (fc4 m) (relu a3)) (\<lambda>a4.
     log_softmax_dim1 a4)))))"

text \<open>\<open>Classifier.forward\<close> of the second class (dropout after each hidden layer).\<close>

definition forward_dropout :: "classifier \<Rightarrow> real \<Rightarrow> masks \<Rightarrow> real tensor \<Rightarrow> error + real tensor" where
  "forward_dropout m p ks x =
     and_then (view_flat x) (\<lambda>x0.
     and_then (linear_fwd (fc1 m) x0) (\<lambda>a1.
     and_then (linear_fwd (fc2 m) (dropout p (training m) (mask1 ks) (relu a1))) (\<lambda>a2.
     and_then (linear_fwd (fc3 m) (dropout p (training m) (mask2 ks) (relu a2))) (\<lambda>a3.
     and_then (linear_fwd (fc4 m) (dropout p (training m) (mask3 ks) (relu a3))) (\<lambda>a4.
     log_softmax_dim1 a4)))))"

text \<open>\<open>model(images)\<close>: the forward method of the object's class.\<close>

definition call_model :: "classifier \<Rightarrow> masks \<Rightarrow> real tensor \<Rightarrow> error + real tensor" where
  "call_model m ks x =
     (case dropout_p m of None \<Rightarrow> forward m x | Some p \<Rightarrow> forward_dropout m p ks x)"

text \<open>The two constructors, from the initial values of the four layers.\<close>

definition Classifier :: "linear \<Rightarrow> linear \<Rightarrow> linear \<Rightarrow> linear \<Rightarrow> classifier" where
  "Classifier l1 l2 l3 l4 =
     \<lparr>fc1 = l1, fc2 = l2, fc3 = l3, fc4 = l4, dropout_p = None, training = True\<rparr>"

definition Classifier_dropout :: "linear \<Rightarrow> linear \<Rightarrow> linear \<Rightarrow> linear \<Rightarrow> classifier" where
  "Classifier_dropout l1 l2 l3 l4 =
     \<lparr>fc1 = l1, fc2 = l2, fc3 = l3, fc4 = l4, dropout_p = Some (2 / 10), training = True\<rparr>"

definition eval_mode :: "classifier \<Rightarrow> classifier" where
  "eval_mode m = m\<lparr>training := False\<rparr>"

definition train_mode :: "classifier \<Rightarrow> classifier" where
  "train_mode m = m\<lparr>training := True\<rparr>"

section \<open>Accuracy of one batch (cells 7, 9 and 11, and the body of the validation loops)\<close>


definition topk1_dim1 :: "(real list \<Rightarrow> nat) \<Rightarrow> real tensor \<Rightarrow> error + (real tensor \<times> nat tensor)" where
  "topk1_dim1 pick ps =
     (case shape ps of
        [] \<Rightarrow> Inl IndexError
      | [_] \<Rightarrow> Inl IndexError
      | [n, m] \<Rightarrow>
          if m = 0 then Inl RuntimeError
          else Inr (\<lparr>shape = [n, 1], dat = map (\<lambda>r. Max (set r)) (rows n m (dat ps))\<rparr>,
                    \<lparr>shape = [n, 1], dat = map pick (rows n m (dat ps))\<rparr>)
      | _ \<Rightarrow> Inl OutOfModel)"

text \<open>One admissible choice: the first index among equal maxima.\<close>

fun top1 :: "real list \<Rightarrow> real \<times> nat" where
  "top1 [] = (0, 0)"
| "top1 [x] = (x, 0)"
| "top1 (x # y # ys) = (let (v, i) = top1 (y # ys) in if v \<le> x then (x, 0) else (v, Suc i))"

definition first_max :: "real list \<Rightarrow> nat" where
  "first_max r = snd (top1 r)"

text \<open>
  \<open>equals = top_class == labels.view(*top_class.shape)\<close>: after the view both operands
  have one shape and \<open>==\<close> compares entry by entry.
\<close>

definition equals_labels :: "nat tensor \<Rightarrow> nat tensor \<Rightarrow> error + bool tensor" where
  "equals_labels top_cls labels =
     and_then (view labels (shape top_cls)) (\<lambda>l.
       Inr \<lparr>shape = shape top_cls, dat = map2 (=) (dat top_cls) (dat l)\<rparr>)"

text \<open>
  \<open>equals.type(torch.FloatTensor)\<close> and \<open>torch.mean\<close>.  The mean is the exact quotient;
  PyTorch returns it rounded to a 32-bit float, which leaves it as it is when the number of
  entries is a power of two, as for the batches of 64 and of 16 examples of the notebook.
\<close>

definition to_float :: "bool tensor \<Rightarrow> real tensor" where
  "to_float t = \<lparr>shape = shape t, dat = map of_bool (dat t)\<rparr>"

definition mean_t :: "real tensor \<Rightarrow> error + real" where
  "mean_t t = (if dat t = [] then Inl NanValue
               else Inr (sum_list (dat t) / real (length (dat t))))"

definition batch_accuracy :: "(real list \<Rightarrow> nat) \<Rightarrow> real tensor \<Rightarrow> nat tensor \<Rightarrow> error + real" where
  "batch_accuracy pick ps labels =
     and_then (topk1_dim1 pick ps) (\<lambda>(top_p, top_cls).
     and_then (equals_labels top_cls labels) (\<lambda>equals.
     mean_t (to_float equals)))"

text \<open>
  \<open>nn.NLLLoss()\<close> with its default mean reduction, on log-probabilities of shape
  \<open>(n, c)\<close> and \<open>n\<close> class indices.  A target that is not one-dimensional is refused
  with a RuntimeError, a one-dimensional target of another length with a ValueError.
\<close>

definition nll_loss :: "real tensor \<Rightarrow> nat tensor \<Rightarrow> error + real" where
  "nll_loss log_ps labels =
     (case shape log_ps of
        [n, c] \<Rightarrow>
          if length (shape labels) \<noteq> 1 then Inl RuntimeError
          else if shape labels \<noteq> [n] \<or> length (dat labels) \<noteq> n then Inl ValueError
          else if \<not> list_all (\<lambda>y. y < c) (dat labels) then Inl IndexError
          else if n = 0 then Inl NanValue
          else Inr (- sum_list (map2 (\<lambda>r y. r ! y) (rows n c (dat log_ps)) (dat labels)) / real n)
      | _ \<Rightarrow> Inl OutOfModel)"

section \<open>The data loaders\<close>

text \<open>
  A dataset is the list of its examples: an image tensor (shape \<open>(1, 28, 28)\<close> after the
  transform) and its class index.  \<open>DataLoader(dataset, batch_size=64, shuffle=True)\<close>
  yields, at every iteration over it, the examples in a fresh random order, cut into batches
  of 64 with a shorter last batch, every batch stacked into one image tensor and one label
  tensor.  The random order is an explicit argument: the loader is applied to the shuffled
  example list.
\<close>

type_synonym example = "real tensor \<times> nat"
type_synonym batch = "real tensor \<times> nat tensor"

function chunks :: "nat \<Rightarrow> 'a list \<Rightarrow> 'a list list" where
  "chunks n xs = (if n = 0 \<or> xs = [] then [] else take n xs # chunks n (drop n xs))"
  by pat_completeness auto
termination
  by (relation "measure (\<lambda>(n, xs). length xs)") auto

declare chunks.simps [simp del]

definition collate :: "example list \<Rightarrow> batch" where
  "collate exs =
     (\<lparr>shape = length exs # (case exs of [] \<Rightarrow> [] | e # _ \<Rightarrow> shape (fst e)),
       dat = concat (map (dat \<circ> fst) exs)\<rparr>,
      \<lparr>shape = [length exs], dat = map snd exs\<rparr>)"

definition batch_size :: nat where
  "batch_size = 64"

definition DataLoader :: "example list \<Rightarrow> batch list" where
  "DataLoader shuffled = map collate (chunks batch_size shuffled)"

text \<open>\<open>len(loader)\<close>: the number of batches, computed from the size of the dataset.\<close>

definition len_loader :: "example list \<Rightarrow> nat" where
  "len_loader ds = (length ds + batch_size - 1) div batch_size"

definition wf_example :: "example \<Rightarrow> bool" where
  "wf_example ex = (shape (fst ex) = [1, 28, 28] \<and> length (dat (fst ex)) = 784 \<and> snd ex < 10)"

section \<open>The notebook session: training and validation loops (cells 13 and 17)\<close>

text \<open>
  The state of the session: the model object, the gradient buffers of its parameters, the
  Adam optimizer (its learning rate and its internal state), the autograd switch, the
  notebook variables \<open>running_loss\<close> and \<open>accuracy\<close>, what has been printed, and what has
  been passed to the plotting helper.  \<open>accuracy\<close> is \<open>None\<close> while it still holds the Python
  integer \<open>0\<close> and \<open>Some a\<close> once a tensor has been added to it.  \<open>trace\<close> records the calls
  in the order they are made; \<open>raised\<close> holds the exception that stopped the cell, after
  which no statement runs.

  The framework supplies what the notebook does not define: \<open>topk_index\<close> is the index
  \<open>topk\<close> returns for a row, \<open>zero_grad\<close> clears the
  gradient buffers, \<open>backward\<close> adds the gradient of the batch loss to them, \<open>adam_step\<close>
  computes new values of the parameters and a new optimizer state from the learning rate,
  the gradients and the old values.
\<close>

datatype phase = TrainingPass | ValidationPass | InferencePass

datatype event =
    ZeroGrad
  | Forward phase bool bool
  | NLLLoss
  | Backward
  | AdamStep real
  | ModelEval
  | ModelTrain
  | PrintAccuracy
  | ViewClassify

type_synonym parameters = "linear \<times> linear \<times> linear \<times> linear"

record ('g, 'o) framework =
  topk_index :: "real list \<Rightarrow> nat"
  zero_grad :: "'g \<Rightarrow> 'g"
  backward :: "classifier \<Rightarrow> masks \<Rightarrow> batch \<Rightarrow> 'g \<Rightarrow> 'g"
  adam_step :: "real \<Rightarrow> 'g \<Rightarrow> 'o \<Rightarrow> parameters \<Rightarrow> parameters \<times> 'o"

record ('g, 'o) session =
  model :: classifier
  grads :: 'g
  optimizer :: 'o
  lr :: real
  grad_enabled :: bool
  running_loss :: real
  accuracy :: "real option"
  stdout :: "real list"
  plotted :: "(real tensor \<times> real tensor) list"
  trace :: "event list"
  raised :: "error option"

definition parameters :: "classifier \<Rightarrow> parameters" where
  "parameters m = (fc1 m, fc2 m, fc3 m, fc4 m)"

definition load_parameters :: "classifier \<Rightarrow> parameters \<Rightarrow> classifier" where
  "load_parameters m ps =
     (case ps of (l1, l2, l3, l4) \<Rightarrow> m\<lparr>fc1 := l1, fc2 := l2, fc3 := l3, fc4 := l4\<rparr>)"

definition wf_parameters :: "parameters \<Rightarrow> bool" where
  "wf_parameters ps =
     (case ps of (l1, l2, l3, l4) \<Rightarrow>
        wf_linear 784 256 l1 \<and> wf_linear 256 128 l2 \<and> wf_linear 128 64 l3 \<and> wf_linear 64 10 l4)"

text \<open>The optimizer writes new values into the parameter tensors; it never reshapes them.\<close>

definition keeps_shapes :: "('g, 'o) framework \<Rightarrow> bool" where
  "keeps_shapes fw =
     (\<forall>r g st ps. wf_parameters ps \<longrightarrow> wf_parameters (fst (adam_step fw r g st ps)))"

text \<open>
  The body of the training loop:
  \<^verbatim>\<open>optimizer.zero_grad(); log_ps = model(images); loss = criterion(log_ps, labels);\<close>
  \<^verbatim>\<open>loss.backward(); optimizer.step(); running_loss += loss.item()\<close>
\<close>

definition train_batch ::
  "('g, 'o) framework \<Rightarrow> masks \<Rightarrow> batch \<Rightarrow> ('g, 'o) session \<Rightarrow> ('g, 'o) session" where
  "train_batch fw ks b s =
     (if raised s \<noteq> None then s
      else
        let s1 = s\<lparr>grads := zero_grad fw (grads s), trace := trace s @ [ZeroGrad]\<rparr>;
            s2 = s1\<lparr>trace := trace s1 @ [Forward TrainingPass (training (model s1)) (grad_enabled s1)]\<rparr>
        in case call_model (model s2) ks (fst b) of
             Inl e \<Rightarrow> s2\<lparr>raised := Some e\<rparr>
           | Inr log_ps \<Rightarrow>
               let s3 = s2\<lparr>trace := trace s2 @ [NLLLoss]\<rparr>
               in case nll_loss log_ps (snd b) of
                    Inl e \<Rightarrow> s3\<lparr>raised := Some e\<rparr>
                  | Inr loss \<Rightarrow>
                      let s4 = s3\<lparr>grads := backward fw (model s3) ks b (grads s3),
                                  trace := trace s3 @ [Backward]\<rparr>;
                          upd = adam_step fw (lr s4) (grads s4) (optimizer s4) (parameters (model s4));
                          s5 = s4\<lparr>model := load_parameters (model s4) (fst upd),
                                  optimizer := snd upd,
                                  trace := trace s4 @ [AdamStep (lr s4)]\<rparr>
                      in s5\<lparr>running_loss := running_loss s5 + loss\<rparr>)"

fun train_loop ::
  "('g, 'o) framework \<Rightarrow> (nat \<Rightarrow> masks) \<Rightarrow> nat \<Rightarrow> batch list \<Rightarrow> ('g, 'o) session \<Rightarrow> ('g, 'o) session" where
  "train_loop fw rng i [] s = s"
| "train_loop fw rng i (b # bs) s = train_loop fw rng (Suc i) bs (train_batch fw (rng i) b s)"

text \<open>
  The body of the validation loop:
  \<^verbatim>\<open>ps = torch.exp(model(images)); top_p, top_class = ps.topk(1, dim=1);\<close>
  \<^verbatim>\<open>equals = top_class == labels.view(*top_class.shape);\<close>
  \<^verbatim>\<open>accuracy += torch.mean(equals.type(torch.FloatTensor))\<close>
\<close>

definition validation_batch ::
  "('g, 'o) framework \<Rightarrow> masks \<Rightarrow> batch \<Rightarrow> ('g, 'o) session \<Rightarrow> ('g, 'o) session" where
  "validation_batch fw ks b s =
     (if raised s \<noteq> None then s
      else
        let s1 = s\<lparr>trace := trace s @ [Forward ValidationPass (training (model s)) (grad_enabled s)]\<rparr>
        in case call_model (model s1) ks (fst b) of
             Inl e \<Rightarrow> s1\<lparr>raised := Some e\<rparr>
           | Inr out \<Rightarrow>
               (case batch_accuracy (topk_index fw) (exp_t out) (snd b) of
                  Inl e \<Rightarrow> s1\<lparr>raised := Some e\<rparr>
                | Inr a \<Rightarrow>
                    s1\<lparr>accuracy := Some ((case accuracy s1 of None \<Rightarrow> 0 | Some t \<Rightarrow> t) + a)\<rparr>))"

fun validation_loop ::
  "('g, 'o) framework \<Rightarrow> (nat \<Rightarrow> masks) \<Rightarrow> nat \<Rightarrow> batch list \<Rightarrow> ('g, 'o) session
     \<Rightarrow> ('g, 'o) session" where
  "validation_loop fw rng i [] s = s"
| "validation_loop fw rng i (b # bs) s =
     validation_loop fw rng (Suc i) bs (validation_batch fw (rng i) b s)"

text \<open>
  \<^verbatim>\<open>print(f'Accuracy: {accuracy.item()*100/len(testloader)}%')\<close>: the Python integer \<open>0\<close>
  has no method \<open>item\<close>.
\<close>

definition print_accuracy :: "nat \<Rightarrow> ('g, 'o) session \<Rightarrow> ('g, 'o) session" where
  "print_accuracy n s =
     (if raised s \<noteq> None then s
      else case accuracy s of
             None \<Rightarrow> s\<lparr>raised := Some AttributeError\<rparr>
           | Some a \<Rightarrow>
               if n = 0 then s\<lparr>raised := Some ZeroDivisionError\<rparr>
               else s\<lparr>stdout := stdout s @ [a * 100 / real n], trace := trace s @ [PrintAccuracy]\<rparr>)"

text \<open>\<open>with torch.no_grad():\<close> switches autograd off and restores it on exit, also on an exception.\<close>

definition no_grad :: "(('g, 'o) session \<Rightarrow> ('g, 'o) session) \<Rightarrow> ('g, 'o) session \<Rightarrow> ('g, 'o) session" where
  "no_grad body s = (body (s\<lparr>grad_enabled := False\<rparr>))\<lparr>grad_enabled := grad_enabled s\<rparr>"

definition model_eval :: "('g, 'o) session \<Rightarrow> ('g, 'o) session" where
  "model_eval s =
     (if raised s \<noteq> None then s
      else s\<lparr>model := eval_mode (model s), trace := trace s @ [ModelEval]\<rparr>)"

definition model_train :: "('g, 'o) session \<Rightarrow> ('g, 'o) session" where
  "model_train s =
     (if raised s \<noteq> None then s
      else s\<lparr>model := train_mode (model s), trace := trace s @ [ModelTrain]\<rparr>)"

text \<open>The validation pass of cell 13 (the \<open>else\<close> branch of the inner \<open>for\<close>).\<close>

definition validation_pass ::
  "('g, 'o) framework \<Rightarrow> (nat \<Rightarrow> masks) \<Rightarrow> example list \<Rightarrow> ('g, 'o) session
     \<Rightarrow> ('g, 'o) session" where
  "validation_pass fw rng shuffled s =
     (if raised s \<noteq> None then s
      else
        let s1 = s\<lparr>accuracy := None\<rparr>;
            s2 = no_grad (validation_loop fw rng 0 (DataLoader shuffled)) s1
        in print_accuracy (len_loader shuffled) s2)"

text \<open>The validation pass of cell 17: the same, with \<open>model.eval()\<close> and \<open>model.train()\<close>.\<close>

definition validation_pass_dropout ::
  "('g, 'o) framework \<Rightarrow> (nat \<Rightarrow> masks) \<Rightarrow> example list \<Rightarrow> ('g, 'o) session
     \<Rightarrow> ('g, 'o) session" where
  "validation_pass_dropout fw rng shuffled s =
     (if raised s \<noteq> None then s
      else
        let s1 = s\<lparr>accuracy := None\<rparr>;
            s2 = no_grad (\<lambda>t. validation_loop fw rng 0 (DataLoader shuffled) (model_eval t)) s1
        in model_train (print_accuracy (len_loader shuffled) s2))"

text \<open>
  The random draws of a run: per epoch, the order in which each loader yields its dataset,
  and per epoch and batch the dropout masks of the forward pass.
\<close>

record draws =
  train_order :: "nat \<Rightarrow> example list"
  test_order :: "nat \<Rightarrow> example list"
  train_masks :: "nat \<Rightarrow> nat \<Rightarrow> masks"
  test_masks :: "nat \<Rightarrow> nat \<Rightarrow> masks"

definition epoch ::
  "('g, 'o) framework \<Rightarrow> draws \<Rightarrow> nat \<Rightarrow> ('g, 'o) session \<Rightarrow> ('g, 'o) session" where
  "epoch fw d e s =
     (if raised s \<noteq> None then s
      else
        let s1 = s\<lparr>running_loss := 0\<rparr>;
            s2 = train_loop fw (train_masks d e) 0 (DataLoader (train_order d e)) s1
        in validation_pass fw (test_masks d e) (test_order d e) s2)"

definition epoch_dropout ::
  "('g, 'o) framework \<Rightarrow> draws \<Rightarrow> nat \<Rightarrow> ('g, 'o) session \<Rightarrow> ('g, 'o) session" where
  "epoch_dropout fw d e s =
     (if raised s \<noteq> None then s
      else
        let s1 = s\<lparr>running_loss := 0\<rparr>;
            s2 = train_loop fw (train_masks d e) 0 (DataLoader (train_order d e)) s1
        in validation_pass_dropout fw (test_masks d e) (test_order d e) s2)"

definition epochs :: nat where
  "epochs = 10"

text \<open>
  \<^verbatim>\<open>model = Classifier(); criterion = nn.NLLLoss();\<close>
  \<^verbatim>\<open>optimizer = optim.Adam(model.parameters(), lr=0.003)\<close>: the session a cell starts from,
  given the initial values of the layers, of the gradient buffers and of the optimizer state.
  The variables \<open>steps\<close>, \<open>train_losses\<close> and \<open>test_losses\<close> of the cells are assigned once
  and never used; they are left out.
\<close>

definition start :: "classifier \<Rightarrow> 'g \<Rightarrow> 'o \<Rightarrow> ('g, 'o) session" where
  "start m g st =
     \<lparr>model = m, grads = g, optimizer = st, lr = 3 / 1000, grad_enabled = True,
      running_loss = 0, accuracy = None, stdout = [], plotted = [], trace = [],
      raised = None\<rparr>"

text \<open>The first \<open>n\<close> iterations of \<open>for e in range(epochs)\<close>, in cell 13 and in cell 17.\<close>

definition first_epochs ::
  "('g, 'o) framework \<Rightarrow> draws \<Rightarrow> nat \<Rightarrow> ('g, 'o) session \<Rightarrow> ('g, 'o) session" where
  "first_epochs fw d n s = fold (epoch fw d) [0..<n] s"

definition first_epochs_dropout ::
  "('g, 'o) framework \<Rightarrow> draws \<Rightarrow> nat \<Rightarrow> ('g, 'o) session \<Rightarrow> ('g, 'o) session" where
  "first_epochs_dropout fw d n s = fold (epoch_dropout fw d) [0..<n] s"

definition run_cell13 ::
  "('g, 'o) framework \<Rightarrow> draws \<Rightarrow> parameters \<Rightarrow> 'g \<Rightarrow> 'o \<Rightarrow> ('g, 'o) session" where
  "run_cell13 fw d ps g st =
     (case ps of (l1, l2, l3, l4) \<Rightarrow>
        first_epochs fw d epochs (start (Classifier l1 l2 l3 l4) g st))"

definition run_cell17 ::
  "('g, 'o) framework \<Rightarrow> draws \<Rightarrow> parameters \<Rightarrow> 'g \<Rightarrow> 'o \<Rightarrow> ('g, 'o) session" where
  "run_cell17 fw d ps g st =
     (case ps of (l1, l2, l3, l4) \<Rightarrow>
        first_epochs_dropout fw d epochs (start (Classifier_dropout l1 l2 l3 l4) g st))"

text \<open>
  The model that the validation pass of epoch \<open>e\<close> of cell 13 evaluates: the one the first
  \<open>e + 1\<close> epochs leave (a validation pass does not change it).
\<close>

definition validated_model ::
  "('g, 'o) framework \<Rightarrow> draws \<Rightarrow> parameters \<Rightarrow> 'g \<Rightarrow> 'o \<Rightarrow> nat \<Rightarrow> classifier" where
  "validated_model fw d ps g st e =
     (case ps of (l1, l2, l3, l4) \<Rightarrow>
        model (first_epochs fw d (Suc e) (start (Classifier l1 l2 l3 l4) g st)))"

section \<open>Single-sample inference (cell 19)\<close>

text \<open>\<open>images[0]\<close>: the first slice along dimension 0.\<close>

definition select0 :: "'a tensor \<Rightarrow> error + 'a tensor" where
  "select0 t =
     (case shape t of
        [] \<Rightarrow> Inl IndexError
      | n # rest \<Rightarrow>
          if n = 0 then Inl IndexError
          else Inr \<lparr>shape = rest, dat = take (prod_list rest) (dat t)\<rparr>)"

text \<open>
  \<^verbatim>\<open>model.eval(); images, labels = iter(testloader).next(); img = images[0];\<close>
  \<^verbatim>\<open>img = img.view(1, 784); with torch.no_grad(): output = model.forward(img);\<close>
  \<^verbatim>\<open>ps = torch.exp(output); helper.view_classify(img.view(1, 28, 28), ps, version='Fashion')\<close>
  The plotting helper is an external module; the call is recorded with its two tensor
  arguments.  \<open>dataiter.next()\<close> is read as \<open>next(dataiter)\<close>, which raises StopIteration on
  an empty loader.
\<close>

definition infer_image :: "masks \<Rightarrow> real tensor \<Rightarrow> ('g, 'o) session \<Rightarrow> ('g, 'o) session" where
  "infer_image ks images s =
     (case and_then (select0 images) (\<lambda>img0. view img0 [1, 784]) of
        Inl e \<Rightarrow> s\<lparr>raised := Some e\<rparr>
      | Inr img \<Rightarrow>
          let s1 = s\<lparr>grad_enabled := False\<rparr>;
              s2 = s1\<lparr>trace := trace s1 @ [Forward InferencePass (training (model s1)) (grad_enabled s1)]\<rparr>;
              res = call_model (model s2) ks img;
              s3 = s2\<lparr>grad_enabled := grad_enabled s\<rparr>
          in case res of
               Inl e \<Rightarrow> s3\<lparr>raised := Some e\<rparr>
             | Inr output \<Rightarrow>
                 (case view img [1, 28, 28] of
                    Inl e \<Rightarrow> s3\<lparr>raised := Some e\<rparr>
                  | Inr shown \<Rightarrow>
                      s3\<lparr>plotted := plotted s3 @ [(shown, exp_t output)],
                         trace := trace s3 @ [ViewClassify]\<rparr>))"

definition inference_cell :: "masks \<Rightarrow> example list \<Rightarrow> ('g, 'o) session \<Rightarrow> ('g, 'o) session" where
  "inference_cell ks shuffled s =
     (if raised s \<noteq> None then s
      else
        let s1 = model_eval s
        in case DataLoader shuffled of
             [] \<Rightarrow> s1\<lparr>raised := Some StopIteration\<rparr>
           | b # _ \<Rightarrow> infer_image ks (fst b) s1)"

section \<open>Row-wise reading of the forward pass\<close>

text \<open>A rank-2 tensor from the list of its rows.\<close>

definition of_rows :: "nat \<Rightarrow> nat \<Rightarrow> 'a list list \<Rightarrow> 'a tensor" where
  "of_rows n m rs = \<lparr>shape = [n, m], dat = concat rs\<rparr>"

text \<open>
  What the forward pass is meant to do with the 784 features of one example: four
  fully-connected layers, ReLU after each of the first three, log-softmax at the output.
\<close>

definition forward_row :: "classifier \<Rightarrow> real list \<Rightarrow> real list" where
  "forward_row m x =
     log_softmax_row (affine (fc4 m)
       (map (max 0) (affine (fc3 m)
         (map (max 0) (affine (fc2 m)
           (map (max 0) (affine (fc1 m) x)))))))"

text \<open>
  The class the model predicts for one image: the index that \<open>topk\<close> returns for its row of
  probabilities.
\<close>

definition predict :: "('g, 'o) framework \<Rightarrow> classifier \<Rightarrow> real tensor \<Rightarrow> nat" where
  "predict fw m img = topk_index fw (map exp (forward_row m (dat img)))"

definition correct :: "('g, 'o) framework \<Rightarrow> classifier \<Rightarrow> example \<Rightarrow> bool" where
  "correct fw m ex = (predict fw m (fst ex) = snd ex)"


section \<open>What the loops are meant to compute and to call\<close>

text \<open>The fraction of a list of examples that the model classifies correctly.\<close>

definition fraction_correct :: "('g, 'o) framework \<Rightarrow> classifier \<Rightarrow> example list \<Rightarrow> real" where
  "fraction_correct fw m exs = real (length (filter (correct fw m) exs)) / real (length exs)"

text \<open>The mean over the batches of a loader of the fraction correct in each batch.\<close>

definition batch_mean_accuracy :: "('g, 'o) framework \<Rightarrow> classifier \<Rightarrow> example list \<Rightarrow> real" where
  "batch_mean_accuracy fw m shuffled =
     sum_list (map (fraction_correct fw m) (chunks batch_size shuffled))
       / real (length (chunks batch_size shuffled))"

text \<open>
  The calls of one training step, of one epoch of cell 13 and of one epoch of cell 17, as the
  description of the loops lists them.
\<close>

definition training_step_calls :: "event list" where
  "training_step_calls =
     [ZeroGrad, Forward TrainingPass True True, NLLLoss, Backward, AdamStep (3 / 1000)]"

definition epoch_calls :: "draws \<Rightarrow> nat \<Rightarrow> event list" where
  "epoch_calls d e =
     concat (replicate (len_loader (train_order d e)) training_step_calls)
     @ replicate (len_loader (test_order d e)) (Forward ValidationPass True False)
     @ [PrintAccuracy]"

definition epoch_calls_dropout :: "draws \<Rightarrow> nat \<Rightarrow> event list" where
  "epoch_calls_dropout d e =
     concat (replicate (len_loader (train_order d e)) training_step_calls)
     @ [ModelEval]
     @ replicate (len_loader (test_order d e)) (Forward ValidationPass False False)
     @ [PrintAccuracy, ModelTrain]"

text \<open>
  The datasets a run iterates over: every example is a \<open>(1, 28, 28)\<close> image with a class
  index below 10, and the test set is not empty.
\<close>

definition wf_data :: "draws \<Rightarrow> bool" where
  "wf_data d =
     list_all (\<lambda>e. list_all wf_example (train_order d e) \<and>
                    list_all wf_example (test_order d e) \<and> test_order d e \<noteq> [])
       [0..<epochs]"

text \<open>A batch as a loader over such a dataset yields it: \<open>k > 0\<close> stacked images and \<open>k\<close> labels.\<close>

definition wf_batch :: "batch \<Rightarrow> bool" where
  "wf_batch b =
     (0 < length (dat (snd b)) \<and>
      shape (fst b) = [length (dat (snd b)), 1, 28, 28] \<and>
      length (dat (fst b)) = length (dat (snd b)) * 784 \<and>
      shape (snd b) = [length (dat (snd b))] \<and>
      list_all (\<lambda>y. y < 10) (dat (snd b)))"

text \<open>
  Calls that leave parameters and optimizer alone: no gradient reset, no backpropagation, no
  optimizer step, and forward passes only with autograd switched off.
\<close>

definition quiet :: "event \<Rightarrow> bool" where
  "quiet ev =
     (case ev of
        ZeroGrad \<Rightarrow> False
      | Backward \<Rightarrow> False
      | AdamStep r \<Rightarrow> False
      | Forward ph tr ge \<Rightarrow> \<not> ge
      | _ \<Rightarrow> True)"

text \<open>
  A forward pass of the training loop runs with dropout active (\<open>training\<close> set), a forward
  pass of the validation loop with dropout inactive.
\<close>

definition mode_ok :: "event \<Rightarrow> bool" where
  "mode_ok ev =
     (case ev of
        Forward ph tr ge \<Rightarrow>
          (case ph of TrainingPass \<Rightarrow> tr | ValidationPass \<Rightarrow> \<not> tr | InferencePass \<Rightarrow> True)
      | _ \<Rightarrow> True)"

text \<open>The value of the notebook variable \<open>accuracy\<close>.\<close>

definition acc_val :: "real option \<Rightarrow> real" where
  "acc_val a = (case a of None \<Rightarrow> 0 | Some t \<Rightarrow> t)"

text \<open>The session is running cell 13 normally: nothing raised, a well-shaped Classifier
  without dropout in training mode, autograd on, the learning rate of the cell.\<close>

definition ready13 :: "('g, 'o) session \<Rightarrow> bool" where
  "ready13 s =
     (raised s = None \<and> wf_classifier (model s) \<and> dropout_p (model s) = None \<and>
      training (model s) \<and> grad_enabled s \<and> lr s = 3 / 1000)"

definition ready17 :: "('g, 'o) session \<Rightarrow> bool" where
  "ready17 s =
     (raised s = None \<and> wf_classifier (model s) \<and>
      training (model s) \<and> grad_enabled s \<and> lr s = 3 / 1000)"

section \<open>What a training step is meant to do\<close>

text \<open>
  Dropout with probability \<open>p\<close> on one row of a batch: a unit whose mask bit is off is
  zeroed, the others are scaled by \<open>1 / (1 - p)\<close>.  In the stacked tensor the entry \<open>k\<close> of the
  row starts at offset \<open>off\<close>, so its mask bit is \<open>keep (off + k)\<close>.
\<close>

definition drop_row :: "real \<Rightarrow> (nat \<Rightarrow> bool) \<Rightarrow> nat \<Rightarrow> real list \<Rightarrow> real list" where
  "drop_row p keep off r =
     map (\<lambda>k. if keep (off + k) then r ! k / (1 - p) else 0) [0..<length r]"

text \<open>
  The forward pass of the second class on example \<open>j\<close> of a batch while dropout is active:
  the four layers, with ReLU and then dropout after each of the first three.
\<close>

definition forward_row_dropout :: "classifier \<Rightarrow> real \<Rightarrow> masks \<Rightarrow> nat \<Rightarrow> real list \<Rightarrow> real list" where
  "forward_row_dropout m p ks j x =
     log_softmax_row (affine (fc4 m)
       (drop_row p (mask3 ks) (j * 64) (map (max 0) (affine (fc3 m)
         (drop_row p (mask2 ks) (j * 128) (map (max 0) (affine (fc2 m)
           (drop_row p (mask1 ks) (j * 256) (map (max 0) (affine (fc1 m) x))))))))))"

text \<open>The log-probabilities of example \<open>j\<close> of a training batch, for either class.\<close>

definition train_row :: "classifier \<Rightarrow> masks \<Rightarrow> nat \<Rightarrow> real list \<Rightarrow> real list" where
  "train_row m ks j x =
     (case dropout_p m of
        None \<Rightarrow> forward_row m x
      | Some p \<Rightarrow> forward_row_dropout m p ks j x)"

text \<open>The negative log-likelihood of rows of log-probabilities against class indices.\<close>

definition nll_rows :: "real list list \<Rightarrow> nat list \<Rightarrow> real" where
  "nll_rows log_ps ys = - sum_list (map2 (\<lambda>r y. r ! y) log_ps ys) / real (length ys)"

text \<open>
  What training changes: the model, the gradient buffers, the optimizer state and the
  running loss.  One training step on the examples \<open>c\<close> of a batch: the gradients are zeroed,
  the loss is the negative log-likelihood of the forward pass against the labels, its
  gradient is added to the zeroed buffers, and one Adam step with learning rate 0.003 is
  taken from these gradients.
\<close>

record ('g, 'o) learner =
  the_model :: classifier
  the_grads :: 'g
  the_optimizer :: 'o
  the_loss :: real

definition learned :: "('g, 'o) session \<Rightarrow> ('g, 'o) learner" where
  "learned s =
     \<lparr>the_model = model s, the_grads = grads s, the_optimizer = optimizer s,
      the_loss = running_loss s\<rparr>"

definition training_step ::
  "('g, 'o) framework \<Rightarrow> masks \<Rightarrow> example list \<Rightarrow> ('g, 'o) learner \<Rightarrow> ('g, 'o) learner" where
  "training_step fw ks c L =
     (let g0 = zero_grad fw (the_grads L);
          log_ps = map (\<lambda>j. train_row (the_model L) ks j (dat (fst (c ! j)))) [0..<length c];
          loss = nll_rows log_ps (map snd c);
          g1 = backward fw (the_model L) ks (collate c) g0;
          upd = adam_step fw (3 / 1000) g1 (the_optimizer L) (parameters (the_model L))
      in \<lparr>the_model = load_parameters (the_model L) (fst upd), the_grads = g1,
          the_optimizer = snd upd, the_loss = the_loss L + loss\<rparr>)"

text \<open>The training steps of the batches \<open>cs\<close>, numbered from \<open>i\<close>, of one epoch, and of \<open>n\<close> epochs.\<close>

fun training_steps ::
  "('g, 'o) framework \<Rightarrow> (nat \<Rightarrow> masks) \<Rightarrow> nat \<Rightarrow> example list list \<Rightarrow> ('g, 'o) learner
     \<Rightarrow> ('g, 'o) learner" where
  "training_steps fw rng i [] L = L"
| "training_steps fw rng i (c # cs) L =
     training_steps fw rng (Suc i) cs (training_step fw (rng i) c L)"

definition training_epoch ::
  "('g, 'o) framework \<Rightarrow> draws \<Rightarrow> nat \<Rightarrow> ('g, 'o) learner \<Rightarrow> ('g, 'o) learner" where
  "training_epoch fw d e L =
     training_steps fw (train_masks d e) 0 (chunks batch_size (train_order d e))
       (L\<lparr>the_loss := 0\<rparr>)"

definition training_epochs ::
  "('g, 'o) framework \<Rightarrow> draws \<Rightarrow> nat \<Rightarrow> ('g, 'o) learner \<Rightarrow> ('g, 'o) learner" where
  "training_epochs fw d n L = fold (training_epoch fw d) [0..<n] L"

section \<open>The numbers a float tensor holds\<close>

text \<open>
  The tensors of the notebook are float tensors: every entry is a binary32 number, with 24
  significant bits and exponents from \<open>-126\<close> upwards (below that, multiples of \<open>2\<^sup>-\<^sup>1\<^sup>4\<^sup>9\<close>).
  \<open>float32 x\<close> is the binary32 number nearest to a real \<open>x\<close> of magnitude below \<open>2\<^sup>1\<^sup>2\<^sup>8\<close>, a
  halfway case going to the even significand.  PyTorch rounds the result of every operation
  of a forward pass to such a number, and the results of its \<open>exp\<close> and \<open>log\<close> kernels need
  not be the nearest one.  The forward pass above is the exact computation that these
  roundings approximate.
\<close>

definition round_even :: "real \<Rightarrow> int" where
  "round_even y =
     (let f = \<lfloor>y\<rfloor> in
        if y - of_int f < 1 / 2 then f
        else if 1 / 2 < y - of_int f then f + 1
        else if even f then f else f + 1)"

definition ulp32 :: "real \<Rightarrow> real" where
  "ulp32 x = 2 powr (of_int (max \<lfloor>log 2 \<bar>x\<bar>\<rfloor> (- 126)) - 23)"

definition float32 :: "real \<Rightarrow> real" where
  "float32 x = (if x = 0 then 0 else of_int (round_even (x / ulp32 x)) * ulp32 x)"

definition float32_t :: "real tensor \<Rightarrow> real tensor" where
  "float32_t t = t\<lparr>dat := map float32 (dat t)\<rparr>"

text \<open>
  \<^verbatim>\<open>ps = torch.exp(model(images))\<close> as a float tensor, at its most accurate: every entry of
  the exact result rounded once.
\<close>

definition ps_float32 :: "classifier \<Rightarrow> real tensor \<Rightarrow> error + real tensor" where
  "ps_float32 m images = and_then (forward m images) (\<lambda>out. Inr (float32_t (exp_t out)))"

text \<open>
  The tensor \<open>q\<close> holds the entries of \<open>t\<close> up to rounding: the same shape, and every entry
  within the relative error \<open>eps\<close> of the exact one.
\<close>

definition rounded_within :: "real \<Rightarrow> real tensor \<Rightarrow> real tensor \<Rightarrow> bool" where
  "rounded_within eps q t =
     (shape q = shape t \<and> list_all2 (\<lambda>a b. \<bar>a - b\<bar> \<le> eps * \<bar>b\<bar>) (dat q) (dat t))"

section \<open>A concrete model and concrete data\<close>

text \<open>
  A Classifier whose weights are all zero and whose output layer has bias
  \<open>(1/10, 0, \<dots>, 0)\<close> (values inside the range the constructor draws from): it gives
  every image the same scores and predicts class 0.
\<close>

definition const_linear :: "nat \<Rightarrow> real list \<Rightarrow> linear" where
  "const_linear i bs =
     \<lparr>in_features = i, out_features = length bs,
      weight = replicate (length bs) (replicate i 0), bias = bs\<rparr>"

definition demo_layers :: parameters where
  "demo_layers =
     (const_linear 784 (replicate 256 0), const_linear 256 (replicate 128 0),
      const_linear 128 (replicate 64 0), const_linear 64 [1 / 10, 0, 0, 0, 0, 0, 0, 0, 0, 0])"

definition demo_model :: classifier where
  "demo_model = (case demo_layers of (l1, l2, l3, l4) \<Rightarrow> Classifier l1 l2 l3 l4)"

definition demo_image :: "real tensor" where
  "demo_image = \<lparr>shape = [1, 28, 28], dat = replicate 784 0\<rparr>"

definition demo_images :: "nat \<Rightarrow> real tensor" where
  "demo_images n = \<lparr>shape = [n, 1, 28, 28], dat = replicate (n * 784) 0\<rparr>"



text \<open>
  A stand-in for the framework whose \<open>topk\<close> returns the first index of the maximum and
  whose optimizer step lowers every bias of the output layer by the learning rate, the test
  set of 10000 examples of which the last 16 carry a label the model does not predict, and
  random draws that present the same data at every epoch.
\<close>

definition demo_framework :: "(unit, unit) framework" where
  "demo_framework =
     \<lparr>topk_index = first_max,
      zero_grad = (\<lambda>g. g),
      backward = (\<lambda>m ks b g. g),
      adam_step = (\<lambda>r g st ps.
        case ps of (l1, l2, l3, l4) \<Rightarrow> ((l1, l2, l3, l4\<lparr>bias := map (\<lambda>b. b - r) (bias l4)\<rparr>), st))\<rparr>"

definition demo_testset :: "example list" where
  "demo_testset = replicate 9984 (demo_image, 0) @ replicate 16 (demo_image, 1)"

definition demo_masks :: masks where
  "demo_masks = \<lparr>mask1 = (\<lambda>i. True), mask2 = (\<lambda>i. True), mask3 = (\<lambda>i. True)\<rparr>"


definition demo_draws :: draws where
  "demo_draws =
     \<lparr>train_order = (\<lambda>e. replicate 100 (demo_image, 0)),
      test_order = (\<lambda>e. demo_testset),
      train_masks = (\<lambda>e i. demo_masks),
      test_masks = (\<lambda>e i. demo_masks)\<rparr>"



section \<open>Rows of a tensor\<close>

lemma length_rows [simp]: "length (rows n m xs) = n"
  by (simp add: rows_def)

lemma rows_0 [simp]: "rows 0 m xs = []"
  by (simp add: rows_def)

lemma rows_Suc: "rows (Suc n) m xs = take m xs # rows n m (drop m xs)"
proof -
  have "[0..<Suc n] = 0 # map Suc [0..<n]"
    by (simp add: upt_conv_Cons map_Suc_upt del: upt_Suc)
  then show ?thesis
    by (simp add: rows_def comp_def add.commute del: upt_Suc)
qed

lemma rows_concat:
  "length rs = n \<Longrightarrow> list_all (\<lambda>r. length r = m) rs \<Longrightarrow> rows n m (concat rs) = rs"
proof (induction rs arbitrary: n)
  case Nil
  then show ?case by simp
next
  case (Cons r rs)
  then obtain k where k: "n = Suc k" "length rs = k" by auto
  with Cons show ?case by (simp add: rows_Suc)
qed

lemma rows_nth: "i < n \<Longrightarrow> rows n m xs ! i = take m (drop (i * m) xs)"
  by (simp add: rows_def)

lemma rows_all_length:
  "length xs = n * m \<Longrightarrow> list_all (\<lambda>r. length r = m) (rows n m xs)"
proof (induction n arbitrary: xs)
  case 0
  then show ?case by simp
next
  case (Suc n)
  then show ?case by (simp add: rows_Suc)
qed

lemma concat_rows: "length xs = n * m \<Longrightarrow> concat (rows n m xs) = xs"
proof (induction n arbitrary: xs)
  case 0
  then show ?case by simp
next
  case (Suc n)
  then show ?case by (simp add: rows_Suc)
qed

lemma length_concat_rows:
  "list_all (\<lambda>r. length r = m) rs \<Longrightarrow> length (concat rs) = length rs * m"
  by (induction rs) simp_all

lemma length_affine: "wf_linear i k l \<Longrightarrow> length (affine l x) = k"
  by (simp add: affine_def wf_linear_def)

lemma view_flat_rows:
  "shape x = n # rest \<Longrightarrow> 0 < n \<Longrightarrow> length (dat x) = n * k \<Longrightarrow>
   view_flat x = Inr (of_rows n k (rows n k (dat x)))"
  by (simp add: view_flat_def of_rows_def concat_rows)

lemma linear_fwd_rows:
  "wf_linear i k l \<Longrightarrow> length rs = n \<Longrightarrow> list_all (\<lambda>r. length r = i) rs \<Longrightarrow>
   linear_fwd l (of_rows n i rs) = Inr (of_rows n k (map (affine l) rs))"
  by (simp add: linear_fwd_def of_rows_def rows_concat wf_linear_def)

lemma relu_rows: "relu (of_rows n m rs) = of_rows n m (map (map (max 0)) rs)"
  by (simp add: relu_def of_rows_def map_concat)

lemma log_softmax_rows:
  "length rs = n \<Longrightarrow> list_all (\<lambda>r. length r = m) rs \<Longrightarrow>
   log_softmax_dim1 (of_rows n m rs) = Inr (of_rows n m (map log_softmax_row rs))"
  by (simp add: log_softmax_dim1_def of_rows_def rows_concat)

section \<open>The forward pass, row by row\<close>

lemma list_all_map_affine:
  "wf_linear i k l \<Longrightarrow> list_all (\<lambda>r. length r = k) (map (affine l) rs)"
  by (simp add: list_all_iff length_affine)

lemma list_all_map_relu:
  "list_all (\<lambda>r. length r = k) rs \<Longrightarrow> list_all (\<lambda>r. length r = k) (map (map f) rs)"
  by (simp add: list_all_iff)

lemma and_then_Inr [simp]: "and_then (Inr v) f = f v"
  by (simp add: and_then_def)

lemma and_then_Inl [simp]: "and_then (Inl e) f = Inl e"
  by (simp add: and_then_def)

lemma forward_of_rows:
  assumes wf: "wf_classifier m" and n: "length rs = n" "0 < n"
    and len: "list_all (\<lambda>r. length r = 784) rs"
  shows "forward m \<lparr>shape = n # rest, dat = concat rs\<rparr>
           = Inr (of_rows n 10 (map (forward_row m) rs))"
proof -
  let ?x = "\<lparr>shape = n # rest, dat = concat rs\<rparr>"
  from wf have l1: "wf_linear 784 256 (fc1 m)" and l2: "wf_linear 256 128 (fc2 m)"
    and l3: "wf_linear 128 64 (fc3 m)" and l4: "wf_linear 64 10 (fc4 m)"
    by (simp_all add: wf_classifier_def)
  have sz: "length (dat ?x) = n * 784"
    using len n by (simp add: length_concat_rows)
  have v: "view_flat ?x = Inr (of_rows n 784 rs)"
    using view_flat_rows [of ?x n rest 784] n sz len by (simp add: rows_concat)
  let ?h1 = "map (map (max 0)) (map (affine (fc1 m)) rs)"
  let ?h2 = "map (map (max 0)) (map (affine (fc2 m)) ?h1)"
  let ?h3 = "map (map (max 0)) (map (affine (fc3 m)) ?h2)"
  have a1: "linear_fwd (fc1 m) (of_rows n 784 rs) = Inr (of_rows n 256 (map (affine (fc1 m)) rs))"
    using linear_fwd_rows [OF l1 n(1) len] .
  have len1: "list_all (\<lambda>r. length r = 256) ?h1"
    by (rule list_all_map_relu) (rule list_all_map_affine [OF l1])
  have a2: "linear_fwd (fc2 m) (of_rows n 256 ?h1) = Inr (of_rows n 128 (map (affine (fc2 m)) ?h1))"
    using linear_fwd_rows [OF l2 _ len1, of n] n by simp
  have len2: "list_all (\<lambda>r. length r = 128) ?h2"
    by (rule list_all_map_relu) (rule list_all_map_affine [OF l2])
  have a3: "linear_fwd (fc3 m) (of_rows n 128 ?h2) = Inr (of_rows n 64 (map (affine (fc3 m)) ?h2))"
    using linear_fwd_rows [OF l3 _ len2, of n] n by simp
  have len3: "list_all (\<lambda>r. length r = 64) ?h3"
    by (rule list_all_map_relu) (rule list_all_map_affine [OF l3])
  have a4: "linear_fwd (fc4 m) (of_rows n 64 ?h3) = Inr (of_rows n 10 (map (affine (fc4 m)) ?h3))"
    using linear_fwd_rows [OF l4 _ len3, of n] n by simp
  have len4: "list_all (\<lambda>r. length r = 10) (map (affine (fc4 m)) ?h3)"
    by (rule list_all_map_affine [OF l4])
  have ls: "log_softmax_dim1 (of_rows n 10 (map (affine (fc4 m)) ?h3))
              = Inr (of_rows n 10 (map log_softmax_row (map (affine (fc4 m)) ?h3)))"
    using log_softmax_rows [OF _ len4, of n] n by simp
  have "forward m ?x = Inr (of_rows n 10 (map log_softmax_row (map (affine (fc4 m)) ?h3)))"
    unfolding forward_def by (simp only: v a1 a2 a3 a4 ls and_then_Inr relu_rows)
  also have "map log_softmax_row (map (affine (fc4 m)) ?h3) = map (forward_row m) rs"
    by (simp add: forward_row_def comp_def)
  finally show ?thesis .
qed

lemma forward_rows:
  assumes wf: "wf_classifier m" and sh: "shape x = n # rest" and n: "0 < n"
    and sz: "length (dat x) = n * 784"
  shows "forward m x = Inr (of_rows n 10 (map (forward_row m) (rows n 784 (dat x))))"
proof -
  have x: "x = \<lparr>shape = n # rest, dat = concat (rows n 784 (dat x))\<rparr>"
    using sh sz by (simp add: concat_rows)
  have "forward m \<lparr>shape = n # rest, dat = concat (rows n 784 (dat x))\<rparr>
          = Inr (of_rows n 10 (map (forward_row m) (rows n 784 (dat x))))"
    by (rule forward_of_rows [OF wf _ n]) (simp_all add: rows_all_length sz)
  with x show ?thesis by simp
qed

lemma length_forward_row: "wf_classifier m \<Longrightarrow> length (forward_row m x) = 10"
  using length_affine [of 64 10 "fc4 m"]
  by (simp add: forward_row_def log_softmax_row_def wf_classifier_def)

lemma sum_exp_nonneg: "0 \<le> sum_list (map exp r)" for r :: "real list"
  by (rule sum_list_nonneg) auto

lemma sum_exp_pos: "r \<noteq> [] \<Longrightarrow> 0 < sum_list (map exp r)" for r :: "real list"
proof (cases r)
  case Nil
  assume "r \<noteq> []"
  with Nil show ?thesis by simp
next
  case (Cons a as)
  have "0 < exp a + sum_list (map exp as)"
    by (rule add_pos_nonneg) (simp_all add: sum_exp_nonneg)
  with Cons show ?thesis by simp
qed

lemma softmax_row_sum:
  fixes r :: "real list"
  assumes "r \<noteq> []"
  shows "sum_list (map exp (log_softmax_row r)) = 1"
proof -
  let ?S = "sum_list (map exp r)"
  have pos: "0 < ?S" using assms by (rule sum_exp_pos)
  have "map exp (log_softmax_row r) = map (\<lambda>v. exp v * inverse ?S) r"
    using pos by (simp add: log_softmax_row_def exp_diff divide_inverse)
  then have "sum_list (map exp (log_softmax_row r)) = ?S * inverse ?S"
    by (simp add: sum_list_mult_const [symmetric] comp_def)
  with pos show ?thesis by simp
qed

lemma length_log_softmax_row [simp]: "length (log_softmax_row r) = length r"
  by (simp add: log_softmax_row_def)

lemma forward_row_distribution:
  assumes "wf_classifier m"
  shows "sum_list (map exp (forward_row m x)) = 1"
proof -
  let ?z = "affine (fc4 m) (map (max 0) (affine (fc3 m) (map (max 0)
              (affine (fc2 m) (map (max 0) (affine (fc1 m) x))))))"
  have "length ?z = 10"
    using assms length_affine [of 64 10 "fc4 m"] by (simp add: wf_classifier_def)
  then have "?z \<noteq> []" by auto
  then show ?thesis unfolding forward_row_def by (rule softmax_row_sum)
qed

lemma exp_t_of_rows: "exp_t (of_rows n k rs) = of_rows n k (map (map exp) rs)"
  by (simp add: exp_t_def of_rows_def map_concat)

lemma wf_const_linear: "length bs = k \<Longrightarrow> wf_linear i k (const_linear i bs)"
  by (auto simp add: wf_linear_def const_linear_def list_all_iff)

lemma wf_demo_layers: "wf_parameters demo_layers"
  by (simp add: wf_parameters_def demo_layers_def wf_const_linear)

lemma wf_demo_model: "wf_classifier demo_model"
  using wf_demo_layers
  by (simp add: wf_parameters_def wf_classifier_def demo_model_def demo_layers_def Classifier_def)

text \<open>
  C5.  On a batch of \<open>n\<close> examples of 784 entries each (\<open>n > 0\<close>; any trailing shape), the
  forward pass of the Classifier returns a tensor of shape \<open>(n, 10)\<close> whose row \<open>i\<close> is the
  image of the flattened example \<open>i\<close> under the four fully-connected layers
  784 \<rightarrow> 256 \<rightarrow> 128 \<rightarrow> 64 \<rightarrow> 10, with ReLU after each of the first three and log-softmax at
  the output.
\<close>

theorem C5_forward_shape:
  assumes "wf_classifier m" and "shape x = n # rest" and "0 < n"
    and "length (dat x) = n * 784"
  shows "\<exists>out. forward m x = Inr out \<and> shape out = [n, 10] \<and> wf_tensor out \<and>
           rows n 10 (dat out) = map (forward_row m) (rows n 784 (dat x))"
proof -
  let ?rs = "map (forward_row m) (rows n 784 (dat x))"
  have len: "list_all (\<lambda>r. length r = 10) ?rs"
    using assms(1) by (simp add: list_all_iff length_forward_row)
  have "forward m x = Inr (of_rows n 10 ?rs)"
    using assms by (rule forward_rows)
  moreover have "shape (of_rows n 10 ?rs) = [n, 10]"
    by (simp add: of_rows_def)
  moreover have "wf_tensor (of_rows n 10 ?rs)"
    using len by (simp add: wf_tensor_def of_rows_def length_concat_rows)
  moreover have "rows n 10 (dat (of_rows n 10 ?rs)) = ?rs"
    using len by (simp add: of_rows_def rows_concat)
  ultimately show ?thesis by blast
qed

theorem C5_forward_shape_witness:
  "\<exists>out. forward demo_model (demo_images 2) = Inr out \<and> shape out = [2, 10] \<and> wf_tensor out \<and>
     rows 2 10 (dat out) = map (forward_row demo_model) (rows 2 784 (dat (demo_images 2)))"
  using C5_forward_shape [of demo_model "demo_images 2" 2 "[1, 28, 28]"] wf_demo_model
  by (simp add: demo_images_def)

section \<open>Accuracy of a batch\<close>

lemma topk1_of_rows:
  "length rs = n \<Longrightarrow> list_all (\<lambda>r. length r = m) rs \<Longrightarrow> 0 < m \<Longrightarrow>
   topk1_dim1 pick (of_rows n m rs)
     = Inr (\<lparr>shape = [n, 1], dat = map (\<lambda>r. Max (set r)) rs\<rparr>,
            \<lparr>shape = [n, 1], dat = map pick rs\<rparr>)"
  by (simp add: topk1_dim1_def of_rows_def rows_concat)

lemma sum_of_bool_map2:
  "sum_list (map of_bool (map2 (=) xs ys)) = real (length (filter (\<lambda>(x, y). x = y) (zip xs ys)))"
proof (induction xs arbitrary: ys)
  case Nil
  then show ?case by simp
next
  case (Cons x xs)
  then show ?case by (cases ys) simp_all
qed

lemma batch_accuracy_of_rows:
  assumes "length rs = n" and "list_all (\<lambda>r. length r = m) rs" and "0 < m" and "0 < n"
    and "length (dat labels) = n"
  shows "batch_accuracy pick (of_rows n m rs) labels
           = Inr (real (length (filter (\<lambda>(r, y). pick r = y) (zip rs (dat labels)))) / real n)"
proof -
  have z: "zip (map pick rs) (dat labels) = map (\<lambda>(r, y). (pick r, y)) (zip rs (dat labels))"
    by (simp add: zip_map1 comp_def)
  have c: "length (filter (\<lambda>(x, y). x = y) (zip (map pick rs) (dat labels)))
             = length (filter (\<lambda>(r, y). pick r = y) (zip rs (dat labels)))"
    unfolding z by (simp add: filter_map comp_def case_prod_unfold)
  let ?eq = "map2 (=) (map pick rs) (dat labels)"
  have len: "length ?eq = n"
    using assms(1,5) by simp
  then have ne: "?eq \<noteq> []"
    using assms(4) by auto
  have e: "equals_labels \<lparr>shape = [n, 1], dat = map pick rs\<rparr> labels
             = Inr \<lparr>shape = [n, 1], dat = ?eq\<rparr>"
    using assms(5) by (simp add: equals_labels_def view_def del: map_map)
  have m: "mean_t (to_float \<lparr>shape = [n, 1], dat = ?eq\<rparr>)
             = Inr (sum_list (map of_bool ?eq) / real n)"
    using ne len by (simp add: mean_t_def to_float_def del: map_map)
  have "batch_accuracy pick (of_rows n m rs) labels = Inr (sum_list (map of_bool ?eq) / real n)"
    unfolding batch_accuracy_def
    by (simp only: topk1_of_rows [OF assms(1,2,3)] and_then_Inr prod.case e m)
  then show ?thesis
    by (simp only: sum_of_bool_map2 c)
qed







section \<open>Batches of a loader\<close>

lemma chunks_Nil [simp]: "chunks n [] = []"
  by (subst chunks.simps) simp

lemma chunks_0 [simp]: "chunks 0 xs = []"
  by (subst chunks.simps) simp

lemma chunks_step: "0 < n \<Longrightarrow> xs \<noteq> [] \<Longrightarrow> chunks n xs = take n xs # chunks n (drop n xs)"
  by (subst chunks.simps) simp


lemma chunks_all:
  "0 < n \<Longrightarrow> list_all P xs \<Longrightarrow> list_all (\<lambda>c. c \<noteq> [] \<and> length c \<le> n \<and> list_all P c) (chunks n xs)"
proof (induction n xs rule: chunks.induct)
  case (1 n xs)
  show ?case
  proof (cases "xs = []")
    case True
    then show ?thesis by simp
  next
    case False
    have "list_all P (take n xs)" "list_all P (drop n xs)"
      using 1(3) by (auto simp add: list_all_iff dest: in_set_takeD in_set_dropD)
    with 1 False show ?thesis by (simp add: chunks_step)
  qed
qed

lemma ceil_div_step:
  fixes a n :: nat
  assumes "0 < n" and "n \<le> a"
  shows "(a + n - 1) div n = Suc ((a - n + n - 1) div n)"
proof -
  have e1: "a + n - 1 = (a - 1) + n" using assms by linarith
  have e2: "a - n + n - 1 = a - 1" using assms by linarith
  have "((a - 1) + n) div n = (a - 1) div n + 1"
    using assms(1) by (intro div_add_self2) simp
  then show ?thesis by (simp only: e1 e2 Suc_eq_plus1)
qed

lemma ceil_div_small:
  fixes a n :: nat
  assumes "0 < a" and "a < n"
  shows "(a + n - 1) div n = 1"
proof (rule div_nat_eqI)
  show "n * 1 \<le> a + n - 1" using assms by linarith
  show "a + n - 1 < n * Suc 1" using assms by simp
qed

lemma length_chunks: "0 < n \<Longrightarrow> length (chunks n xs) = (length xs + n - 1) div n"
proof (induction n xs rule: chunks.induct)
  case (1 n xs)
  show ?case
  proof (cases "xs = []")
    case True
    have "(n - 1) div n = 0" using 1(2) by (intro div_less) linarith
    with True show ?thesis by simp
  next
    case False
    then have pos: "0 < length xs" by simp
    from False 1(2) have c: "\<not> (n = 0 \<or> xs = [])" by blast
    have ih: "length (chunks n (drop n xs)) = (length (drop n xs) + n - 1) div n"
      using c 1(2) by (rule 1(1))
    have st: "length (chunks n xs) = Suc (length (chunks n (drop n xs)))"
      by (simp only: chunks_step [OF 1(2) False] list.size)
    show ?thesis
    proof (cases "n \<le> length xs")
      case True
      have "length (drop n xs) = length xs - n" by (rule length_drop)
      with ih have "length (chunks n (drop n xs)) = (length xs - n + n - 1) div n"
        by (simp only:)
      with st show ?thesis
        by (simp only: ceil_div_step [OF 1(2) True])
    next
      case F: False
      then have d: "drop n xs = []" by simp
      have "(length xs + n - 1) div n = 1"
        using pos F by (intro ceil_div_small) linarith+
      with st d show ?thesis by (simp only: chunks_Nil list.size) 
    qed
  qed
qed


section \<open>The model on a batch of a loader\<close>

lemma dropout_eval: "dropout p False keep x = x"
  by (simp add: dropout_def)

lemma collate_wf:
  assumes "c \<noteq> []" and "list_all wf_example c"
  shows "collate c = (\<lparr>shape = [length c, 1, 28, 28], dat = concat (map (dat \<circ> fst) c)\<rparr>,
                      \<lparr>shape = [length c], dat = map snd c\<rparr>)"
proof -
  obtain e es where c: "c = e # es" using assms(1) by (cases c) auto
  with assms(2) have "shape (fst e) = [1, 28, 28]" by (simp add: wf_example_def)
  with c show ?thesis by (simp add: collate_def)
qed

lemma images_rows:
  "list_all wf_example c \<Longrightarrow> list_all (\<lambda>r. length r = 784) (map (dat \<circ> fst) c)"
  by (simp add: list_all_iff wf_example_def)

lemma call_model_eval:
  "dropout_p m = None \<or> \<not> training m \<Longrightarrow> call_model m ks x = forward m x"
  by (auto simp add: call_model_def forward_dropout_def forward_def dropout_eval split: option.splits)

lemma call_model_collate:
  assumes "wf_classifier m" and "dropout_p m = None \<or> \<not> training m"
    and "c \<noteq> []" and "list_all wf_example c"
  shows "call_model m ks (fst (collate c))
           = Inr (of_rows (length c) 10 (map (forward_row m \<circ> dat \<circ> fst) c))"
proof -
  have "forward m \<lparr>shape = length c # [1, 28, 28], dat = concat (map (dat \<circ> fst) c)\<rparr>
          = Inr (of_rows (length c) 10 (map (forward_row m) (map (dat \<circ> fst) c)))"
    using assms(3) by (intro forward_of_rows assms(1) images_rows assms(4)) simp_all
  then show ?thesis
    by (simp add: call_model_eval [OF assms(2)] collate_wf [OF assms(3,4)] comp_def)
qed

lemma batch_accuracy_collate:
  assumes "wf_classifier m" and "c \<noteq> []" and "list_all wf_example c"
  shows "batch_accuracy (topk_index fw) (exp_t (of_rows (length c) 10 (map (forward_row m \<circ> dat \<circ> fst) c)))
           (snd (collate c))
         = Inr (real (length (filter (correct fw m) c)) / real (length c))"
proof -
  let ?f = "\<lambda>ex. map exp (forward_row m (dat (fst ex)))"
  let ?rs = "map ?f c"
  have len: "list_all (\<lambda>r. length r = 10) ?rs"
    using assms(1) by (simp add: list_all_iff length_forward_row)
  have lab: "dat (snd (collate c)) = map snd c"
    by (simp add: collate_def)
  have correct_eq: "correct fw m = (\<lambda>ex. topk_index fw (?f ex) = snd ex)"
    by (simp add: fun_eq_iff correct_def predict_def)
  have acc: "batch_accuracy (topk_index fw) (of_rows (length c) 10 ?rs) (snd (collate c))
          = Inr (real (length (filter (\<lambda>(r, y). topk_index fw r = y) (zip ?rs (dat (snd (collate c)))))) / real (length c))"
    using assms(2) by (intro batch_accuracy_of_rows len) (simp_all add: lab)
  have z: "zip ?rs (map snd c) = map (\<lambda>ex. (?f ex, snd ex)) c"
    by (induction c) simp_all
  have cnt: "length (filter (\<lambda>(r, y). topk_index fw r = y) (zip ?rs (dat (snd (collate c)))))
          = length (filter (correct fw m) c)"
    by (simp add: lab z filter_map comp_def correct_eq)
  have e: "exp_t (of_rows (length c) 10 (map (forward_row m \<circ> dat \<circ> fst) c)) = of_rows (length c) 10 ?rs"
    by (simp add: exp_t_of_rows comp_def)
  show ?thesis
    by (simp only: e acc cnt)
qed

section \<open>Shapes through the forward pass of either class\<close>

lemma linear_fwd_shape:
  assumes "wf_linear i k l" and "shape x = [n, i]"
  shows "\<exists>y. linear_fwd l x = Inr y \<and> shape y = [n, k] \<and> length (dat y) = n * k"
proof -
  have "length (concat (map (affine l) (rows n i (dat x)))) = n * k"
    using length_concat_rows [OF list_all_map_affine [OF assms(1)], of "rows n i (dat x)"]
    by simp
  then show ?thesis
    using assms by (simp add: linear_fwd_def wf_linear_def)
qed

lemma relu_shape [simp]: "shape (relu x) = shape x" "length (dat (relu x)) = length (dat x)"
  by (simp_all add: relu_def)

lemma dropout_shape [simp]:
  "shape (dropout p t keep x) = shape x" "length (dat (dropout p t keep x)) = length (dat x)"
  by (simp_all add: dropout_def)

lemma log_softmax_shape:
  assumes "shape x = [n, k]" and "length (dat x) = n * k"
  shows "\<exists>y. log_softmax_dim1 x = Inr y \<and> shape y = [n, k] \<and> length (dat y) = n * k"
proof -
  have "list_all (\<lambda>r. length r = k) (map log_softmax_row (rows n k (dat x)))"
    using rows_all_length [OF assms(2)] by (simp add: list_all_iff)
  from length_concat_rows [OF this] show ?thesis
    using assms(1) by (simp add: log_softmax_dim1_def)
qed

lemma view_flat_shape:
  assumes "shape x = n # rest" and "0 < n" and "length (dat x) = n * k"
  shows "\<exists>y. view_flat x = Inr y \<and> shape y = [n, k]"
  using assms by (simp add: view_flat_def)

lemma forward_dropout_shape:
  assumes wf: "wf_classifier m" and sh: "shape x = n # rest" and n: "0 < n"
    and sz: "length (dat x) = n * 784"
  shows "\<exists>out. forward_dropout m p ks x = Inr out \<and> shape out = [n, 10] \<and> length (dat out) = n * 10"
proof -
  from wf have l1: "wf_linear 784 256 (fc1 m)" and l2: "wf_linear 256 128 (fc2 m)"
    and l3: "wf_linear 128 64 (fc3 m)" and l4: "wf_linear 64 10 (fc4 m)"
    by (simp_all add: wf_classifier_def)
  obtain x0 where x0: "view_flat x = Inr x0" "shape x0 = [n, 784]"
    using view_flat_shape [OF sh n sz] by blast
  obtain a1 where a1: "linear_fwd (fc1 m) x0 = Inr a1" "shape a1 = [n, 256]"
    using linear_fwd_shape [OF l1 x0(2)] by blast
  let ?h1 = "dropout p (training m) (mask1 ks) (relu a1)"
  have "shape ?h1 = [n, 256]" using a1(2) by simp
  from linear_fwd_shape [OF l2 this]
  obtain a2 where a2: "linear_fwd (fc2 m) ?h1 = Inr a2" "shape a2 = [n, 128]" by blast
  let ?h2 = "dropout p (training m) (mask2 ks) (relu a2)"
  have "shape ?h2 = [n, 128]" using a2(2) by simp
  from linear_fwd_shape [OF l3 this]
  obtain a3 where a3: "linear_fwd (fc3 m) ?h2 = Inr a3" "shape a3 = [n, 64]" by blast
  let ?h3 = "dropout p (training m) (mask3 ks) (relu a3)"
  have "shape ?h3 = [n, 64]" using a3(2) by simp
  from linear_fwd_shape [OF l4 this]
  obtain a4 where a4: "linear_fwd (fc4 m) ?h3 = Inr a4" "shape a4 = [n, 10]"
    "length (dat a4) = n * 10" by blast
  from log_softmax_shape [OF a4(2,3)]
  obtain out where out: "log_softmax_dim1 a4 = Inr out" "shape out = [n, 10]"
    "length (dat out) = n * 10" by blast
  have "forward_dropout m p ks x = Inr out"
    unfolding forward_dropout_def by (simp only: x0 a1 a2 a3 a4 out and_then_Inr)
  with out show ?thesis by blast
qed

lemma call_model_shape:
  assumes wf: "wf_classifier m" and sh: "shape x = n # rest" and n: "0 < n"
    and sz: "length (dat x) = n * 784"
  shows "\<exists>out. call_model m ks x = Inr out \<and> shape out = [n, 10] \<and> length (dat out) = n * 10"
proof (cases "dropout_p m")
  case None
  have "length (concat (map (forward_row m) (rows n 784 (dat x)))) = n * 10"
    using length_concat_rows [of 10 "map (forward_row m) (rows n 784 (dat x))"] wf
    by (simp add: list_all_iff length_forward_row)
  then show ?thesis
    using None forward_rows [OF wf sh n sz] by (simp add: call_model_def of_rows_def)
next
  case (Some p)
  then show ?thesis
    using forward_dropout_shape [OF wf sh n sz] by (simp add: call_model_def)
qed

lemma nll_loss_ok:
  assumes "shape lp = [n, 10]" and "shape lab = [n]" and "length (dat lab) = n"
    and "list_all (\<lambda>y. y < 10) (dat lab)" and "0 < n"
  shows "\<exists>loss. nll_loss lp lab = Inr loss"
  using assms by (simp add: nll_loss_def)

section \<open>The forward pass with dropout, row by row\<close>

lemma map_enumerate_upt:
  "map (\<lambda>(i, v). f i v) (enumerate off r) = map (\<lambda>k. f (off + k) (r ! k)) [0..<length r]"
  by (rule nth_equalityI) (simp_all add: nth_enumerate_eq)

lemma dropout_row:
  "map (\<lambda>(i, v). if keep i then v / (1 - p) else 0) (enumerate off r) = drop_row p keep off r"
  unfolding drop_row_def by (rule map_enumerate_upt)

lemma length_drop_row [simp]: "length (drop_row p keep off r) = length r"
  by (simp add: drop_row_def)

lemma length_concat_upt:
  "(\<And>j. j < n \<Longrightarrow> length (G j) = m) \<Longrightarrow> length (concat (map G [0..<n])) = n * m"
  by (induction n) simp_all

lemma drop_row_append:
  "drop_row p keep off (A @ B) = drop_row p keep off A @ drop_row p keep (off + length A) B"
  by (rule nth_equalityI) (auto simp add: drop_row_def nth_append add.assoc)

lemma drop_row_concat_upt:
  assumes "\<And>j. j < n \<Longrightarrow> length (G j) = m"
  shows "drop_row p keep 0 (concat (map G [0..<n]))
           = concat (map (\<lambda>j. drop_row p keep (j * m) (G j)) [0..<n])"
  using assms
proof (induction n)
  case 0
  then show ?case by (simp add: drop_row_def)
next
  case (Suc n)
  have len: "length (concat (map G [0..<n])) = n * m"
    using Suc.prems by (intro length_concat_upt) simp
  have ih: "drop_row p keep 0 (concat (map G [0..<n]))
           = concat (map (\<lambda>j. drop_row p keep (j * m) (G j)) [0..<n])"
    using Suc.prems by (intro Suc.IH) simp
  show ?case
    by (simp add: drop_row_append len ih)
qed

lemma dropout_rows:
  assumes "\<And>j. j < n \<Longrightarrow> length (G j) = m"
  shows "dropout p True keep (of_rows n m (map G [0..<n]))
           = of_rows n m (map (\<lambda>j. drop_row p keep (j * m) (G j)) [0..<n])"
  using drop_row_concat_upt [OF assms, where keep = keep and p = p]
  by (simp add: dropout_def of_rows_def dropout_row)

lemma map_upt_nth: "length rs = n \<Longrightarrow> map f rs = map (\<lambda>j. f (rs ! j)) [0..<n]"
  by (simp add: list_eq_iff_nth_eq)

lemma list_all_upt: "list_all (\<lambda>r. length r = m) (map G [0..<n]) = (\<forall>j<n. length (G j) = m)"
  by (auto simp add: list_all_iff)

lemma forward_dropout_of_rows:
  assumes wf: "wf_classifier m" and tr: "training m" and n: "length rs = n" "0 < n"
    and len: "list_all (\<lambda>r. length r = 784) rs"
  shows "forward_dropout m p ks \<lparr>shape = n # rest, dat = concat rs\<rparr>
           = Inr (of_rows n 10 (map (\<lambda>j. forward_row_dropout m p ks j (rs ! j)) [0..<n]))"
proof -
  let ?x = "\<lparr>shape = n # rest, dat = concat rs\<rparr>"
  from wf have l1: "wf_linear 784 256 (fc1 m)" and l2: "wf_linear 256 128 (fc2 m)"
    and l3: "wf_linear 128 64 (fc3 m)" and l4: "wf_linear 64 10 (fc4 m)"
    by (simp_all add: wf_classifier_def)
  have sz: "length (dat ?x) = n * 784"
    using len n by (simp add: length_concat_rows)
  have v: "view_flat ?x = Inr (of_rows n 784 rs)"
    using view_flat_rows [of ?x n rest 784] n sz len by (simp add: rows_concat)
  let ?a1 = "\<lambda>j. map (max 0) (affine (fc1 m) (rs ! j))"
  let ?h1 = "\<lambda>j. drop_row p (mask1 ks) (j * 256) (?a1 j)"
  let ?a2 = "\<lambda>j. map (max 0) (affine (fc2 m) (?h1 j))"
  let ?h2 = "\<lambda>j. drop_row p (mask2 ks) (j * 128) (?a2 j)"
  let ?a3 = "\<lambda>j. map (max 0) (affine (fc3 m) (?h2 j))"
  let ?h3 = "\<lambda>j. drop_row p (mask3 ks) (j * 64) (?a3 j)"
  have a1: "linear_fwd (fc1 m) (of_rows n 784 rs) = Inr (of_rows n 256 (map (affine (fc1 m)) rs))"
    using linear_fwd_rows [OF l1 n(1) len] .
  have r1: "relu (of_rows n 256 (map (affine (fc1 m)) rs)) = of_rows n 256 (map ?a1 [0..<n])"
    using map_upt_nth [OF n(1), of "map (max 0) \<circ> affine (fc1 m)"]
    by (simp add: relu_rows comp_def)
  have d1: "dropout p True (mask1 ks) (of_rows n 256 (map ?a1 [0..<n])) = of_rows n 256 (map ?h1 [0..<n])"
    by (rule dropout_rows) (simp add: length_affine [OF l1])
  have a2: "linear_fwd (fc2 m) (of_rows n 256 (map ?h1 [0..<n]))
              = Inr (of_rows n 128 (map (affine (fc2 m)) (map ?h1 [0..<n])))"
    by (rule linear_fwd_rows [OF l2]) (simp_all add: list_all_upt length_affine [OF l1])
  have r2: "relu (of_rows n 128 (map (affine (fc2 m)) (map ?h1 [0..<n]))) = of_rows n 128 (map ?a2 [0..<n])"
    by (simp add: relu_rows comp_def)
  have d2: "dropout p True (mask2 ks) (of_rows n 128 (map ?a2 [0..<n])) = of_rows n 128 (map ?h2 [0..<n])"
    by (rule dropout_rows) (simp add: length_affine [OF l2])
  have a3: "linear_fwd (fc3 m) (of_rows n 128 (map ?h2 [0..<n]))
              = Inr (of_rows n 64 (map (affine (fc3 m)) (map ?h2 [0..<n])))"
    by (rule linear_fwd_rows [OF l3]) (simp_all add: list_all_upt length_affine [OF l2])
  have r3: "relu (of_rows n 64 (map (affine (fc3 m)) (map ?h2 [0..<n]))) = of_rows n 64 (map ?a3 [0..<n])"
    by (simp add: relu_rows comp_def)
  have d3: "dropout p True (mask3 ks) (of_rows n 64 (map ?a3 [0..<n])) = of_rows n 64 (map ?h3 [0..<n])"
    by (rule dropout_rows) (simp add: length_affine [OF l3])
  have a4: "linear_fwd (fc4 m) (of_rows n 64 (map ?h3 [0..<n]))
              = Inr (of_rows n 10 (map (affine (fc4 m)) (map ?h3 [0..<n])))"
    by (rule linear_fwd_rows [OF l4]) (simp_all add: list_all_upt length_affine [OF l3])
  have ls: "log_softmax_dim1 (of_rows n 10 (map (affine (fc4 m)) (map ?h3 [0..<n])))
              = Inr (of_rows n 10 (map log_softmax_row (map (affine (fc4 m)) (map ?h3 [0..<n]))))"
    by (rule log_softmax_rows) (simp_all add: list_all_iff length_affine [OF l4])
  have t: "training m = True" using tr by simp
  have "forward_dropout m p ks ?x
          = Inr (of_rows n 10 (map log_softmax_row (map (affine (fc4 m)) (map ?h3 [0..<n]))))"
    unfolding forward_dropout_def t
    by (simp only: v a1 r1 d1 a2 r2 d2 a3 r3 d3 a4 ls and_then_Inr)
  also have "map log_softmax_row (map (affine (fc4 m)) (map ?h3 [0..<n]))
               = map (\<lambda>j. forward_row_dropout m p ks j (rs ! j)) [0..<n]"
    by (simp add: forward_row_dropout_def comp_def)
  finally show ?thesis .
qed

section \<open>The training loop\<close>

lemma wf_batch_collate:
  assumes "c \<noteq> []" and "list_all wf_example c"
  shows "wf_batch (collate c)"
proof -
  have "length (concat (map (dat \<circ> fst) c)) = length c * 784"
    using length_concat_rows [OF images_rows [OF assms(2)]] by simp
  moreover have "list_all (\<lambda>y. y < 10) (map snd c)"
    using assms(2) by (simp add: list_all_iff wf_example_def)
  ultimately show ?thesis
    using assms(1) by (simp add: wf_batch_def collate_wf [OF assms])
qed

lemma wf_batch_DataLoader:
  assumes "list_all wf_example xs"
  shows "list_all wf_batch (DataLoader xs)"
proof -
  have "list_all (\<lambda>c. c \<noteq> [] \<and> length c \<le> batch_size \<and> list_all wf_example c) (chunks batch_size xs)"
    using assms by (intro chunks_all) (simp add: batch_size_def)
  then show ?thesis
    by (simp add: DataLoader_def list_all_iff wf_batch_collate)
qed

lemma length_DataLoader: "length (DataLoader xs) = len_loader xs"
  by (simp add: DataLoader_def len_loader_def length_chunks batch_size_def)

lemma wf_load_parameters:
  "wf_parameters ps \<Longrightarrow> wf_classifier (load_parameters m ps)"
  by (cases ps) (simp add: wf_parameters_def wf_classifier_def load_parameters_def)

lemma wf_parameters_of: "wf_classifier m \<Longrightarrow> wf_parameters (parameters m)"
  by (simp add: wf_parameters_def wf_classifier_def parameters_def)

lemma load_parameters_flags [simp]:
  "training (load_parameters m ps) = training m"
  "dropout_p (load_parameters m ps) = dropout_p m"
  by (cases ps; simp add: load_parameters_def)+

lemma train_batch_frame [simp]:
  "lr (train_batch fw ks b s) = lr s"
  "grad_enabled (train_batch fw ks b s) = grad_enabled s"
  "stdout (train_batch fw ks b s) = stdout s"
  "plotted (train_batch fw ks b s) = plotted s"
  "accuracy (train_batch fw ks b s) = accuracy s"
  "training (model (train_batch fw ks b s)) = training (model s)"
  "dropout_p (model (train_batch fw ks b s)) = dropout_p (model s)"
  by (simp_all add: train_batch_def Let_def split: sum.splits)

lemma train_batch_raised: "raised s \<noteq> None \<Longrightarrow> train_batch fw ks b s = s"
  by (simp add: train_batch_def)

lemma train_batch_ok:
  assumes ks: "keeps_shapes fw" and b: "wf_batch b"
    and r: "raised s = None" and wf: "wf_classifier (model s)"
  shows "raised (train_batch fw ks' b s) = None \<and> wf_classifier (model (train_batch fw ks' b s)) \<and>
         trace (train_batch fw ks' b s)
           = trace s @ [ZeroGrad, Forward TrainingPass (training (model s)) (grad_enabled s),
                        NLLLoss, Backward, AdamStep (lr s)]"
proof -
  let ?k = "length (dat (snd b))"
  from b have sh: "shape (fst b) = ?k # [1, 28, 28]" and k: "0 < ?k"
    and sz: "length (dat (fst b)) = ?k * 784" and ls: "shape (snd b) = [?k]"
    and lab: "list_all (\<lambda>y. y < 10) (dat (snd b))"
    by (simp_all add: wf_batch_def)
  obtain out where out: "call_model (model s) ks' (fst b) = Inr out" "shape out = [?k, 10]"
    using call_model_shape [OF wf sh k sz] by blast
  obtain loss where loss: "nll_loss out (snd b) = Inr loss"
    using nll_loss_ok [OF out(2) ls _ lab k] by blast
  have "wf_parameters (fst (adam_step fw r' g st (parameters (model s))))" for r' g st
    using ks wf_parameters_of [OF wf] unfolding keeps_shapes_def by blast
  then show ?thesis
    using r out(1) loss by (simp add: train_batch_def Let_def wf_load_parameters)
qed

lemma train_loop_raised: "raised s \<noteq> None \<Longrightarrow> train_loop fw rng i bs s = s"
  by (induction bs arbitrary: i s) (simp_all add: train_batch_raised)

lemma train_loop_frame [simp]:
  "lr (train_loop fw rng i bs s) = lr s"
  "grad_enabled (train_loop fw rng i bs s) = grad_enabled s"
  "stdout (train_loop fw rng i bs s) = stdout s"
  "plotted (train_loop fw rng i bs s) = plotted s"
  "accuracy (train_loop fw rng i bs s) = accuracy s"
  "training (model (train_loop fw rng i bs s)) = training (model s)"
  "dropout_p (model (train_loop fw rng i bs s)) = dropout_p (model s)"
  by (induction bs arbitrary: i s; simp)+

lemma train_loop_ok:
  assumes "keeps_shapes fw" and "list_all wf_batch bs"
    and "raised s = None" and "wf_classifier (model s)"
  shows "raised (train_loop fw rng i bs s) = None \<and> wf_classifier (model (train_loop fw rng i bs s)) \<and>
         trace (train_loop fw rng i bs s)
           = trace s @ concat (replicate (length bs)
               [ZeroGrad, Forward TrainingPass (training (model s)) (grad_enabled s),
                NLLLoss, Backward, AdamStep (lr s)])"
  using assms(2-)
proof (induction bs arbitrary: i s)
  case Nil
  then show ?case by simp
next
  case (Cons b bs)
  from Cons.prems have b: "wf_batch b" and bs: "list_all wf_batch bs" by simp_all
  note step = train_batch_ok [OF assms(1) b Cons.prems(2,3), of "rng i"]
  from Cons.IH [OF bs, of "train_batch fw (rng i) b s" "Suc i"] step
  show ?case by simp
qed

section \<open>A training step does what it is meant to do\<close>

lemma train_row_plain: "dropout_p m = None \<Longrightarrow> train_row m ks j x = forward_row m x"
  by (simp add: train_row_def)

lemma call_model_train:
  assumes wf: "wf_classifier m" and tr: "training m"
    and c: "c \<noteq> []" "list_all wf_example c"
  shows "call_model m ks (fst (collate c))
           = Inr (of_rows (length c) 10
                   (map (\<lambda>j. train_row m ks j (dat (fst (c ! j)))) [0..<length c]))"
proof -
  let ?rs = "map (dat \<circ> fst) c"
  have n: "length ?rs = length c" "0 < length c" using c(1) by simp_all
  have len: "list_all (\<lambda>r. length r = 784) ?rs" by (rule images_rows [OF c(2)])
  have x: "fst (collate c) = \<lparr>shape = length c # [1, 28, 28], dat = concat ?rs\<rparr>"
    by (simp add: collate_wf [OF c])
  show ?thesis
  proof (cases "dropout_p m")
    case None
    have "forward m \<lparr>shape = length c # [1, 28, 28], dat = concat ?rs\<rparr>
            = Inr (of_rows (length c) 10 (map (forward_row m) ?rs))"
      by (rule forward_of_rows [OF wf n len])
    moreover have "map (forward_row m) ?rs
            = map (\<lambda>j. train_row m ks j (dat (fst (c ! j)))) [0..<length c]"
      using map_upt_nth [of c "length c" "\<lambda>ex. forward_row m (dat (fst ex))"] None
      by (simp add: train_row_def comp_def)
    ultimately show ?thesis using None by (simp add: call_model_def x)
  next
    case (Some p)
    have "forward_dropout m p ks \<lparr>shape = length c # [1, 28, 28], dat = concat ?rs\<rparr>
            = Inr (of_rows (length c) 10
                    (map (\<lambda>j. forward_row_dropout m p ks j (?rs ! j)) [0..<length c]))"
      by (rule forward_dropout_of_rows [OF wf tr n len])
    moreover have "map (\<lambda>j. forward_row_dropout m p ks j (?rs ! j)) [0..<length c]
            = map (\<lambda>j. train_row m ks j (dat (fst (c ! j)))) [0..<length c]"
      using Some by (simp add: train_row_def)
    ultimately show ?thesis using Some by (simp add: call_model_def x)
  qed
qed

lemma length_forward_row_dropout: "wf_classifier m \<Longrightarrow> length (forward_row_dropout m p ks j x) = 10"
  using length_affine [of 64 10 "fc4 m"]
  by (simp add: forward_row_dropout_def log_softmax_row_def wf_classifier_def)

lemma length_train_row: "wf_classifier m \<Longrightarrow> length (train_row m ks j x) = 10"
  by (simp add: train_row_def length_forward_row length_forward_row_dropout split: option.splits)

lemma nll_loss_rows:
  assumes "length rs = n" and "list_all (\<lambda>r. length r = 10) rs" and "0 < n"
    and "length ys = n" and "list_all (\<lambda>y. y < 10) ys"
  shows "nll_loss (of_rows n 10 rs) \<lparr>shape = [n], dat = ys\<rparr> = Inr (nll_rows rs ys)"
  using assms by (simp add: nll_loss_def of_rows_def rows_concat nll_rows_def)

lemma train_batch_learned:
  assumes r: "raised s = None" and wf: "wf_classifier (model s)" and tr: "training (model s)"
    and l: "lr s = 3 / 1000" and c: "c \<noteq> []" "list_all wf_example c"
  shows "learned (train_batch fw ks (collate c) s) = training_step fw ks c (learned s)"
proof -
  let ?rs = "map (\<lambda>j. train_row (model s) ks j (dat (fst (c ! j)))) [0..<length c]"
  have out: "call_model (model s) ks (fst (collate c)) = Inr (of_rows (length c) 10 ?rs)"
    by (rule call_model_train [OF wf tr c])
  have lab: "snd (collate c) = \<lparr>shape = [length c], dat = map snd c\<rparr>"
    by (simp add: collate_def)
  have "list_all (\<lambda>y. y < 10) (map snd c)"
    using c(2) by (simp add: list_all_iff wf_example_def)
  then have loss: "nll_loss (of_rows (length c) 10 ?rs) (snd (collate c))
                     = Inr (nll_rows ?rs (map snd c))"
    unfolding lab using c(1) wf
    by (intro nll_loss_rows) (simp_all add: list_all_iff length_train_row)
  show ?thesis
    using r by (simp add: train_batch_def Let_def out loss learned_def training_step_def l)
qed

lemma train_loop_learned:
  assumes ks: "keeps_shapes fw"
    and cs: "list_all (\<lambda>c. c \<noteq> [] \<and> list_all wf_example c) cs"
    and r: "raised s = None" and wf: "wf_classifier (model s)" and tr: "training (model s)"
    and l: "lr s = 3 / 1000"
  shows "learned (train_loop fw rng i (map collate cs) s) = training_steps fw rng i cs (learned s)"
  using cs r wf tr l
proof (induction cs arbitrary: i s)
  case Nil
  then show ?case by simp
next
  case (Cons c cs)
  let ?t = "train_batch fw (rng i) (collate c) s"
  from Cons.prems(1) have c: "c \<noteq> []" "list_all wf_example c"
    and cs: "list_all (\<lambda>c. c \<noteq> [] \<and> list_all wf_example c) cs" by simp_all
  have step: "learned ?t = training_step fw (rng i) c (learned s)"
    by (rule train_batch_learned [OF Cons.prems(2,3,4,5) c])
  have ok: "raised ?t = None" "wf_classifier (model ?t)"
    using train_batch_ok [OF ks wf_batch_collate [OF c] Cons.prems(2,3), of "rng i"] by simp_all
  have fr: "training (model ?t)" "lr ?t = 3 / 1000"
    using Cons.prems(4,5) by simp_all
  show ?case
    using Cons.IH [OF cs ok fr, of "Suc i"] step by simp
qed

section \<open>What a validation pass leaves alone\<close>

lemma validation_batch_frame [simp]:
  "model (validation_batch fw ks b s) = model s"
  "optimizer (validation_batch fw ks b s) = optimizer s"
  "grads (validation_batch fw ks b s) = grads s"
  "lr (validation_batch fw ks b s) = lr s"
  "grad_enabled (validation_batch fw ks b s) = grad_enabled s"
  "stdout (validation_batch fw ks b s) = stdout s"
  "plotted (validation_batch fw ks b s) = plotted s"
  "running_loss (validation_batch fw ks b s) = running_loss s"
  by (simp_all add: validation_batch_def Let_def split: sum.splits)

lemma validation_batch_raised: "raised s \<noteq> None \<Longrightarrow> validation_batch fw ks b s = s"
  by (simp add: validation_batch_def)

lemma validation_loop_frame [simp]:
  "model (validation_loop fw rng i bs s) = model s"
  "optimizer (validation_loop fw rng i bs s) = optimizer s"
  "grads (validation_loop fw rng i bs s) = grads s"
  "lr (validation_loop fw rng i bs s) = lr s"
  "grad_enabled (validation_loop fw rng i bs s) = grad_enabled s"
  "stdout (validation_loop fw rng i bs s) = stdout s"
  "plotted (validation_loop fw rng i bs s) = plotted s"
  "running_loss (validation_loop fw rng i bs s) = running_loss s"
  by (induction bs arbitrary: i s; simp)+

lemma validation_loop_raised: "raised s \<noteq> None \<Longrightarrow> validation_loop fw rng i bs s = s"
  by (induction bs arbitrary: i s) (simp_all add: validation_batch_raised)

lemma print_accuracy_frame [simp]:
  "model (print_accuracy n s) = model s"
  "optimizer (print_accuracy n s) = optimizer s"
  "grads (print_accuracy n s) = grads s"
  "lr (print_accuracy n s) = lr s"
  "grad_enabled (print_accuracy n s) = grad_enabled s"
  "plotted (print_accuracy n s) = plotted s"
  "running_loss (print_accuracy n s) = running_loss s"
  by (simp_all add: print_accuracy_def split: option.splits)

lemma model_eval_frame [simp]:
  "parameters (model (model_eval s)) = parameters (model s)"
  "dropout_p (model (model_eval s)) = dropout_p (model s)"
  "optimizer (model_eval s) = optimizer s"
  "grads (model_eval s) = grads s"
  "lr (model_eval s) = lr s"
  "grad_enabled (model_eval s) = grad_enabled s"
  "stdout (model_eval s) = stdout s"
  "raised (model_eval s) = raised s"
  by (simp_all add: model_eval_def eval_mode_def parameters_def)

lemma model_train_frame [simp]:
  "parameters (model (model_train s)) = parameters (model s)"
  "dropout_p (model (model_train s)) = dropout_p (model s)"
  "optimizer (model_train s) = optimizer s"
  "grads (model_train s) = grads s"
  "lr (model_train s) = lr s"
  "grad_enabled (model_train s) = grad_enabled s"
  "stdout (model_train s) = stdout s"
  "raised (model_train s) = raised s"
  by (simp_all add: model_train_def train_mode_def parameters_def)

lemma validation_pass_frame:
  "parameters (model (validation_pass fw rng sh s)) = parameters (model s)"
  "optimizer (validation_pass fw rng sh s) = optimizer s"
  "grads (validation_pass fw rng sh s) = grads s"
  by (simp_all add: validation_pass_def Let_def no_grad_def)

lemma validation_pass_dropout_frame:
  "parameters (model (validation_pass_dropout fw rng sh s)) = parameters (model s)"
  "optimizer (validation_pass_dropout fw rng sh s) = optimizer s"
  "grads (validation_pass_dropout fw rng sh s) = grads s"
  by (simp_all add: validation_pass_dropout_def Let_def no_grad_def)

lemma validation_batch_quiet:
  "\<not> grad_enabled s \<Longrightarrow> \<exists>evs. trace (validation_batch fw ks b s) = trace s @ evs \<and> list_all quiet evs"
  by (simp add: validation_batch_def Let_def quiet_def split: sum.splits)

lemma validation_loop_quiet:
  "\<not> grad_enabled s \<Longrightarrow> \<exists>evs. trace (validation_loop fw rng i bs s) = trace s @ evs \<and> list_all quiet evs"
proof (induction bs arbitrary: i s)
  case Nil
  then show ?case by simp
next
  case (Cons b bs)
  obtain e1 where e1: "trace (validation_batch fw (rng i) b s) = trace s @ e1" "list_all quiet e1"
    using validation_batch_quiet [OF Cons.prems] by blast
  have "\<not> grad_enabled (validation_batch fw (rng i) b s)" using Cons.prems by simp
  from Cons.IH [OF this, of "Suc i"] obtain e2 where
    e2: "trace (validation_loop fw rng (Suc i) bs (validation_batch fw (rng i) b s))
           = trace (validation_batch fw (rng i) b s) @ e2" "list_all quiet e2"
    by blast
  have "trace (validation_loop fw rng i (b # bs) s) = trace s @ (e1 @ e2)"
    using e1(1) e2(1) by simp
  moreover have "list_all quiet (e1 @ e2)" using e1(2) e2(2) by simp
  ultimately show ?case by blast
qed

lemma print_accuracy_quiet:
  "\<exists>evs. trace (print_accuracy n s) = trace s @ evs \<and> list_all quiet evs"
  by (simp add: print_accuracy_def quiet_def split: option.splits)

lemma model_eval_quiet:
  "\<exists>evs. trace (model_eval s) = trace s @ evs \<and> list_all quiet evs"
  by (simp add: model_eval_def quiet_def)

lemma model_train_quiet:
  "\<exists>evs. trace (model_train s) = trace s @ evs \<and> list_all quiet evs"
  by (simp add: model_train_def quiet_def)

lemma quiet_chain:
  assumes "\<exists>evs. trace t = trace s @ evs \<and> list_all quiet evs"
    and "\<exists>evs. trace u = trace t @ evs \<and> list_all quiet evs"
  shows "\<exists>evs. trace u = trace s @ evs \<and> list_all quiet evs"
proof -
  from assms obtain e1 e2 where "trace t = trace s @ e1" "list_all quiet e1"
    "trace u = trace t @ e2" "list_all quiet e2" by blast
  then have "trace u = trace s @ (e1 @ e2)" "list_all quiet (e1 @ e2)" by simp_all
  then show ?thesis by blast
qed

lemma validation_pass_quiet:
  "\<exists>evs. trace (validation_pass fw rng sh s) = trace s @ evs \<and> list_all quiet evs"
proof (cases "raised s = None")
  case False
  then show ?thesis by (simp add: validation_pass_def)
next
  case True
  let ?s1 = "s\<lparr>accuracy := None, grad_enabled := False\<rparr>"
  let ?s2 = "validation_loop fw rng 0 (DataLoader sh) ?s1"
  let ?s3 = "?s2\<lparr>grad_enabled := grad_enabled s\<rparr>"
  have a: "\<exists>evs. trace ?s3 = trace s @ evs \<and> list_all quiet evs"
    using validation_loop_quiet [of ?s1 fw rng 0 "DataLoader sh"] by simp
  have b: "\<exists>evs. trace (print_accuracy (len_loader sh) ?s3) = trace ?s3 @ evs \<and> list_all quiet evs"
    by (rule print_accuracy_quiet)
  have "validation_pass fw rng sh s = print_accuracy (len_loader sh) ?s3"
    using True by (simp add: validation_pass_def Let_def no_grad_def)
  with quiet_chain [OF a b] show ?thesis by simp
qed

lemma validation_pass_dropout_quiet:
  "\<exists>evs. trace (validation_pass_dropout fw rng sh s) = trace s @ evs \<and> list_all quiet evs"
proof (cases "raised s = None")
  case False
  then show ?thesis by (simp add: validation_pass_dropout_def)
next
  case True
  let ?s1 = "s\<lparr>accuracy := None, grad_enabled := False\<rparr>"
  let ?s1' = "model_eval ?s1"
  let ?s2 = "validation_loop fw rng 0 (DataLoader sh) ?s1'"
  let ?s3 = "?s2\<lparr>grad_enabled := grad_enabled s\<rparr>"
  let ?s4 = "print_accuracy (len_loader sh) ?s3"
  have a0: "\<exists>evs. trace ?s1' = trace s @ evs \<and> list_all quiet evs"
    using model_eval_quiet [of ?s1] by simp
  have a1: "\<exists>evs. trace ?s3 = trace ?s1' @ evs \<and> list_all quiet evs"
    using validation_loop_quiet [of ?s1' fw rng 0 "DataLoader sh"] by simp
  have b: "\<exists>evs. trace ?s4 = trace ?s3 @ evs \<and> list_all quiet evs"
    by (rule print_accuracy_quiet)
  have c: "\<exists>evs. trace (model_train ?s4) = trace ?s4 @ evs \<and> list_all quiet evs"
    by (rule model_train_quiet)
  have "validation_pass_dropout fw rng sh s = model_train ?s4"
    using True by (simp add: validation_pass_dropout_def Let_def no_grad_def)
  with quiet_chain [OF quiet_chain [OF quiet_chain [OF a0 a1] b] c] show ?thesis by simp
qed

text \<open>
  C8.  A validation pass, of cell 13 or of cell 17, started in any session leaves the weights
  and biases of \<open>fc1\<close> to \<open>fc4\<close>, the optimizer state and the gradient buffers as they were;
  the calls it makes contain no gradient reset, no backpropagation and no optimizer step,
  and every forward pass among them runs with autograd switched off.
\<close>

theorem C8_validation_leaves_model_unchanged:
  "parameters (model (validation_pass fw rng sh s)) = parameters (model s) \<and>
   optimizer (validation_pass fw rng sh s) = optimizer s \<and>
   grads (validation_pass fw rng sh s) = grads s \<and>
   (\<exists>evs. trace (validation_pass fw rng sh s) = trace s @ evs \<and> list_all quiet evs) \<and>
   parameters (model (validation_pass_dropout fw rng sh s)) = parameters (model s) \<and>
   optimizer (validation_pass_dropout fw rng sh s) = optimizer s \<and>
   grads (validation_pass_dropout fw rng sh s) = grads s \<and>
   (\<exists>evs. trace (validation_pass_dropout fw rng sh s) = trace s @ evs \<and> list_all quiet evs)"
  by (simp only: validation_pass_frame validation_pass_dropout_frame validation_pass_quiet
      validation_pass_dropout_quiet simp_thms)

section \<open>What a validation pass prints\<close>

lemma validation_batch_collate:
  assumes "raised s = None" and "wf_classifier (model s)"
    and "dropout_p (model s) = None \<or> \<not> training (model s)"
    and "c \<noteq> []" and "list_all wf_example c"
  shows "validation_batch fw ks (collate c) s
           = s\<lparr>trace := trace s @ [Forward ValidationPass (training (model s)) (grad_enabled s)],
               accuracy := Some (acc_val (accuracy s) + fraction_correct fw (model s) c)\<rparr>"
  using assms(1)
  by (simp add: validation_batch_def Let_def call_model_collate [OF assms(2-5)]
      batch_accuracy_collate [OF assms(2,4,5)] fraction_correct_def acc_val_def)

lemma validation_loop_collate:
  assumes "raised s = None" and "wf_classifier (model s)"
    and "dropout_p (model s) = None \<or> \<not> training (model s)"
    and "list_all (\<lambda>c. c \<noteq> [] \<and> list_all wf_example c) cs"
  shows "validation_loop fw rng i (map collate cs) s
           = s\<lparr>trace := trace s @ replicate (length cs)
                   (Forward ValidationPass (training (model s)) (grad_enabled s)),
               accuracy := (if cs = [] then accuracy s
                            else Some (acc_val (accuracy s)
                                       + sum_list (map (fraction_correct fw (model s)) cs)))\<rparr>"
  using assms
proof (induction cs arbitrary: i s)
  case Nil
  then show ?case by simp
next
  case (Cons c cs)
  let ?t = "validation_batch fw (rng i) (collate c) s"
  from Cons.prems have c: "c \<noteq> []" "list_all wf_example c"
    and cs: "list_all (\<lambda>c. c \<noteq> [] \<and> list_all wf_example c) cs" by simp_all
  have t: "?t = s\<lparr>trace := trace s @ [Forward ValidationPass (training (model s)) (grad_enabled s)],
               accuracy := Some (acc_val (accuracy s) + fraction_correct fw (model s) c)\<rparr>"
    by (rule validation_batch_collate [OF Cons.prems(1,2,3) c])
  have pre: "raised ?t = None" "wf_classifier (model ?t)"
    "dropout_p (model ?t) = None \<or> \<not> training (model ?t)"
    using Cons.prems(1,2,3) by (simp_all add: t)
  have "validation_loop fw rng i (map collate (c # cs)) s = validation_loop fw rng (Suc i) (map collate cs) ?t"
    by simp
  also have "\<dots> = ?t\<lparr>trace := trace ?t @ replicate (length cs)
                   (Forward ValidationPass (training (model ?t)) (grad_enabled ?t)),
               accuracy := (if cs = [] then accuracy ?t
                            else Some (acc_val (accuracy ?t)
                                       + sum_list (map (fraction_correct fw (model ?t)) cs)))\<rparr>"
    by (rule Cons.IH [OF pre cs])
  also have "\<dots> = s\<lparr>trace := trace s @ replicate (length (c # cs))
                   (Forward ValidationPass (training (model s)) (grad_enabled s)),
               accuracy := (if c # cs = [] then accuracy s
                            else Some (acc_val (accuracy s)
                                       + sum_list (map (fraction_correct fw (model s)) (c # cs))))\<rparr>"
    by (simp add: t acc_val_def replicate_append_same [symmetric])
  finally show ?case .
qed

lemma chunks_nonempty: "0 < n \<Longrightarrow> xs \<noteq> [] \<Longrightarrow> chunks n xs \<noteq> []"
  by (simp add: chunks_step)

lemma validation_pass_eq:
  assumes "raised s = None" and "wf_classifier (model s)"
    and "dropout_p (model s) = None" and "sh \<noteq> []" and "list_all wf_example sh"
  shows "validation_pass fw rng sh s
           = s\<lparr>accuracy := Some (sum_list (map (fraction_correct fw (model s)) (chunks batch_size sh))),
               trace := trace s @ replicate (len_loader sh)
                   (Forward ValidationPass (training (model s)) False) @ [PrintAccuracy],
               stdout := stdout s @ [100 * batch_mean_accuracy fw (model s) sh]\<rparr>"
proof -
  let ?cs = "chunks batch_size sh"
  let ?s1 = "s\<lparr>accuracy := None, grad_enabled := False\<rparr>"
  have cs: "list_all (\<lambda>c. c \<noteq> [] \<and> list_all wf_example c) ?cs"
    using chunks_all [of batch_size wf_example sh] assms(5)
    by (simp add: batch_size_def list_all_iff)
  have ne: "?cs \<noteq> []"
    using assms(4) by (intro chunks_nonempty) (simp_all add: batch_size_def)
  have len: "len_loader sh = length ?cs"
    by (simp add: len_loader_def length_chunks batch_size_def)
  then have pos: "len_loader sh \<noteq> 0" using ne by simp
  have loop: "validation_loop fw rng 0 (DataLoader sh) ?s1
        = ?s1\<lparr>trace := trace ?s1 @ replicate (length ?cs)
                   (Forward ValidationPass (training (model ?s1)) (grad_enabled ?s1)),
               accuracy := (if ?cs = [] then accuracy ?s1
                            else Some (acc_val (accuracy ?s1)
                                       + sum_list (map (fraction_correct fw (model ?s1)) ?cs)))\<rparr>"
    unfolding DataLoader_def
    using assms(1,2,3) by (intro validation_loop_collate cs) simp_all
  show ?thesis
    using assms(1) ne pos
    by (simp add: validation_pass_def Let_def no_grad_def loop print_accuracy_def acc_val_def
        batch_mean_accuracy_def len [symmetric])
qed

section \<open>The epochs of cell 13\<close>

lemma validation_pass_model [simp]: "model (validation_pass fw rng sh s) = model s"
  by (simp add: validation_pass_def Let_def no_grad_def)

lemma epoch_ok:
  assumes ks: "keeps_shapes fw" and r: "ready13 s"
    and tr: "list_all wf_example (train_order d e)"
    and te: "list_all wf_example (test_order d e)" "test_order d e \<noteq> []"
  shows "ready13 (epoch fw d e s) \<and>
         trace (epoch fw d e s) = trace s @ epoch_calls d e \<and>
         stdout (epoch fw d e s)
           = stdout s @ [100 * batch_mean_accuracy fw (model (epoch fw d e s)) (test_order d e)] \<and>
         learned (epoch fw d e s) = training_epoch fw d e (learned s)"
proof -
  let ?s1 = "s\<lparr>running_loss := 0\<rparr>"
  let ?s2 = "train_loop fw (train_masks d e) 0 (DataLoader (train_order d e)) ?s1"
  from r have r0: "raised s = None" and wf: "wf_classifier (model s)"
    and dp: "dropout_p (model s) = None" and tm: "training (model s)"
    and ge: "grad_enabled s" and l: "lr s = 3 / 1000"
    by (simp_all add: ready13_def)
  have t: "raised ?s2 = None" "wf_classifier (model ?s2)"
    "trace ?s2 = trace ?s1 @ concat (replicate (length (DataLoader (train_order d e)))
               [ZeroGrad, Forward TrainingPass (training (model ?s1)) (grad_enabled ?s1),
                NLLLoss, Backward, AdamStep (lr ?s1)])"
    using train_loop_ok [OF ks wf_batch_DataLoader [OF tr], of ?s1 "train_masks d e" 0] r0 wf
    by simp_all
  have dp2: "dropout_p (model ?s2) = None" using dp by simp
  have v: "validation_pass fw (test_masks d e) (test_order d e) ?s2
      = ?s2\<lparr>accuracy := Some (sum_list (map (fraction_correct fw (model ?s2)) (chunks batch_size (test_order d e)))),
               trace := trace ?s2 @ replicate (len_loader (test_order d e))
                   (Forward ValidationPass (training (model ?s2)) False) @ [PrintAccuracy],
               stdout := stdout ?s2 @ [100 * batch_mean_accuracy fw (model ?s2) (test_order d e)]\<rparr>"
    by (rule validation_pass_eq [OF t(1,2) dp2 te(2,1)])
  have ep: "epoch fw d e s = validation_pass fw (test_masks d e) (test_order d e) ?s2"
    using r0 by (simp add: epoch_def Let_def)
  have m: "model (epoch fw d e s) = model ?s2"
    by (simp only: ep validation_pass_model)
  have "ready13 (epoch fw d e s)"
    unfolding ep v using t(1,2) dp tm ge l by (simp add: ready13_def)
  moreover have "trace (epoch fw d e s) = trace s @ epoch_calls d e"
    unfolding ep v using t(3) tm ge l
    by (simp add: epoch_calls_def training_step_calls_def length_DataLoader)
  moreover have "stdout (epoch fw d e s)
           = stdout s @ [100 * batch_mean_accuracy fw (model (epoch fw d e s)) (test_order d e)]"
    unfolding m unfolding ep v by simp
  moreover have "learned (epoch fw d e s) = training_epoch fw d e (learned s)"
  proof -
    have cs: "list_all (\<lambda>c. c \<noteq> [] \<and> list_all wf_example c) (chunks batch_size (train_order d e))"
      using chunks_all [of batch_size wf_example "train_order d e"] tr
      by (simp add: batch_size_def list_all_iff)
    have "learned ?s2 = training_steps fw (train_masks d e) 0 (chunks batch_size (train_order d e))
                          (learned ?s1)"
      unfolding DataLoader_def
      using r0 wf tm l by (intro train_loop_learned ks cs) simp_all
    moreover have "learned ?s1 = (learned s)\<lparr>the_loss := 0\<rparr>"
      by (simp add: learned_def)
    moreover have "learned (epoch fw d e s) = learned ?s2"
      unfolding ep v by (simp add: learned_def)
    ultimately show ?thesis by (simp add: training_epoch_def)
  qed
  ultimately show ?thesis by blast
qed

lemma first_epochs_Suc: "first_epochs fw d (Suc n) s = epoch fw d n (first_epochs fw d n s)"
  by (simp add: first_epochs_def)

lemma first_epochs_0 [simp]: "first_epochs fw d 0 s = s"
  by (simp add: first_epochs_def)

lemma first_epochs_ok:
  assumes ks: "keeps_shapes fw" and r: "ready13 s"
    and dat: "\<And>e. e < n \<Longrightarrow> list_all wf_example (train_order d e) \<and>
                   list_all wf_example (test_order d e) \<and> test_order d e \<noteq> []"
  shows "ready13 (first_epochs fw d n s) \<and>
         trace (first_epochs fw d n s) = trace s @ concat (map (epoch_calls d) [0..<n]) \<and>
         stdout (first_epochs fw d n s)
           = stdout s @ map (\<lambda>e. 100 * batch_mean_accuracy fw (model (first_epochs fw d (Suc e) s))
                                  (test_order d e)) [0..<n] \<and>
         learned (first_epochs fw d n s) = training_epochs fw d n (learned s)"
  using dat
proof (induction n)
  case 0
  then show ?case using r by (simp add: training_epochs_def)
next
  case (Suc n)
  let ?t = "first_epochs fw d n s"
  have ih: "ready13 ?t" "trace ?t = trace s @ concat (map (epoch_calls d) [0..<n])"
    "stdout ?t = stdout s @ map (\<lambda>e. 100 * batch_mean_accuracy fw (model (first_epochs fw d (Suc e) s))
                                  (test_order d e)) [0..<n]"
    "learned ?t = training_epochs fw d n (learned s)"
    using Suc.IH Suc.prems by simp_all
  have dn: "list_all wf_example (train_order d n)" "list_all wf_example (test_order d n)"
    "test_order d n \<noteq> []"
    using Suc.prems [of n] by simp_all
  note step = epoch_ok [OF ks ih(1) dn]
  show ?case
    using step ih(2,3,4) by (simp add: first_epochs_Suc training_epochs_def)
qed

section \<open>The run of cell 13\<close>

lemma ready13_start:
  "wf_parameters (l1, l2, l3, l4) \<Longrightarrow> ready13 (start (Classifier l1 l2 l3 l4) g st)"
  by (simp add: ready13_def start_def Classifier_def wf_parameters_def wf_classifier_def)

lemma wf_data_nth:
  "wf_data d \<Longrightarrow> e < epochs \<Longrightarrow>
   list_all wf_example (train_order d e) \<and> list_all wf_example (test_order d e) \<and> test_order d e \<noteq> []"
  by (simp add: wf_data_def list_all_iff)

lemma learned_start:
  "learned (start m g st) = \<lparr>the_model = m, the_grads = g, the_optimizer = st, the_loss = 0\<rparr>"
  by (simp add: learned_def start_def)

lemma run_cell13_ok:
  assumes "keeps_shapes fw" and "wf_parameters ps" and "wf_data d"
  shows "ready13 (run_cell13 fw d ps g st) \<and>
         trace (run_cell13 fw d ps g st) = concat (map (epoch_calls d) [0..<epochs]) \<and>
         stdout (run_cell13 fw d ps g st)
           = map (\<lambda>e. 100 * batch_mean_accuracy fw (validated_model fw d ps g st e) (test_order d e))
               [0..<epochs]"
proof -
  obtain l1 l2 l3 l4 where ps: "ps = (l1, l2, l3, l4)" by (cases ps) auto
  let ?s = "start (Classifier l1 l2 l3 l4) g st"
  have r: "ready13 ?s" using assms(2) unfolding ps by (rule ready13_start)
  have "trace ?s = []" "stdout ?s = []" by (simp_all add: start_def)
  with first_epochs_ok [OF assms(1) r wf_data_nth [OF assms(3)], of epochs]
  show ?thesis by (simp add: ps run_cell13_def validated_model_def)
qed

lemma run_cell13_learned:
  assumes "keeps_shapes fw" and "wf_parameters (l1, l2, l3, l4)" and "wf_data d" and "n \<le> epochs"
  shows "learned (first_epochs fw d n (start (Classifier l1 l2 l3 l4) g st))
           = training_epochs fw d n
               \<lparr>the_model = \<lparr>fc1 = l1, fc2 = l2, fc3 = l3, fc4 = l4, dropout_p = None,
                              training = True\<rparr>,
                the_grads = g, the_optimizer = st, the_loss = 0\<rparr>"
proof -
  let ?s = "start (Classifier l1 l2 l3 l4) g st"
  have r: "ready13 ?s" using assms(2) by (rule ready13_start)
  have "e < n \<Longrightarrow> list_all wf_example (train_order d e) \<and>
          list_all wf_example (test_order d e) \<and> test_order d e \<noteq> []" for e
    using wf_data_nth [OF assms(3), of e] assms(4) by simp
  from first_epochs_ok [OF assms(1) r this, of n]
  show ?thesis by (simp add: learned_start Classifier_def)
qed

lemma keeps_shapes_demo: "keeps_shapes demo_framework"
  by (auto simp add: keeps_shapes_def demo_framework_def wf_parameters_def wf_linear_def)

lemma wf_example_demo: "y < 10 \<Longrightarrow> wf_example (demo_image, y)"
  by (simp add: wf_example_def demo_image_def)

lemma wf_demo_testset: "list_all wf_example demo_testset" "demo_testset \<noteq> []"
  by (simp_all add: demo_testset_def list_all_iff wf_example_demo)

lemma wf_data_demo: "wf_data demo_draws"
  using wf_demo_testset
  by (simp add: wf_data_def demo_draws_def list_all_iff wf_example_demo)

text \<open>
  C6.  When the optimizer keeps the shapes of the parameters and the datasets are
  well-formed, cell 13 runs its 10 epochs without an exception.  The calls it makes are,
  epoch after epoch: for every training batch a gradient reset, a forward pass (training
  mode, autograd on), the negative log-likelihood loss, backpropagation and one Adam step
  with learning rate 0.003, in this order; then one no-grad forward pass per test batch and
  one accuracy printout.  What the run leaves in the model, the gradient buffers, the
  optimizer and the running loss is what these training steps produce, batch after batch:
  gradients zeroed, the loss of the forward pass against the labels added to the running
  loss, its gradient added to the zeroed buffers, one Adam step from these gradients.  The
  accuracy printed in epoch \<open>e\<close> is that of the model after the training steps of epochs
  \<open>0\<close> to \<open>e\<close>.
\<close>

theorem C6_training_loop_calls:
  assumes "keeps_shapes fw" and "wf_parameters (l1, l2, l3, l4)" and "wf_data d"
  shows "raised (run_cell13 fw d (l1, l2, l3, l4) g st) = None \<and>
         trace (run_cell13 fw d (l1, l2, l3, l4) g st) = concat (map (epoch_calls d) [0..<10]) \<and>
         learned (run_cell13 fw d (l1, l2, l3, l4) g st)
           = training_epochs fw d 10
               \<lparr>the_model = \<lparr>fc1 = l1, fc2 = l2, fc3 = l3, fc4 = l4, dropout_p = None,
                              training = True\<rparr>,
                the_grads = g, the_optimizer = st, the_loss = 0\<rparr> \<and>
         stdout (run_cell13 fw d (l1, l2, l3, l4) g st)
           = map (\<lambda>e. 100 * batch_mean_accuracy fw
                    (the_model (training_epochs fw d (Suc e)
                       \<lparr>the_model = \<lparr>fc1 = l1, fc2 = l2, fc3 = l3, fc4 = l4, dropout_p = None,
                                      training = True\<rparr>,
                        the_grads = g, the_optimizer = st, the_loss = 0\<rparr>))
                    (test_order d e)) [0..<10]"
proof -
  let ?R = "run_cell13 fw d (l1, l2, l3, l4) g st"
  let ?s = "start (Classifier l1 l2 l3 l4) g st"
  let ?L = "\<lparr>the_model = \<lparr>fc1 = l1, fc2 = l2, fc3 = l3, fc4 = l4, dropout_p = None,
                              training = True\<rparr>,
                the_grads = g, the_optimizer = st, the_loss = 0\<rparr>"
  note ok = run_cell13_ok [OF assms, of g st]
  have R: "?R = first_epochs fw d epochs ?s" by (simp add: run_cell13_def)
  have le: "learned (first_epochs fw d n ?s) = training_epochs fw d n ?L" if "n \<le> epochs" for n
    using that by (rule run_cell13_learned [OF assms])
  have "validated_model fw d (l1, l2, l3, l4) g st e = the_model (training_epochs fw d (Suc e) ?L)"
    if "e < epochs" for e
  proof -
    have "model (first_epochs fw d (Suc e) ?s) = the_model (learned (first_epochs fw d (Suc e) ?s))"
      by (simp add: learned_def)
    also have "\<dots> = the_model (training_epochs fw d (Suc e) ?L)"
      using that by (simp only: le [of "Suc e"] Suc_leI)
    finally show ?thesis by (simp add: validated_model_def)
  qed
  then have "map (\<lambda>e. 100 * batch_mean_accuracy fw (validated_model fw d (l1, l2, l3, l4) g st e)
                         (test_order d e)) [0..<epochs]
           = map (\<lambda>e. 100 * batch_mean_accuracy fw (the_model (training_epochs fw d (Suc e) ?L))
                         (test_order d e)) [0..<epochs]"
    by simp
  with ok le [of epochs] show ?thesis
    by (simp add: R ready13_def epochs_def)
qed

theorem C6_training_loop_calls_witness:
  "raised (run_cell13 demo_framework demo_draws demo_layers () ()) = None \<and>
   trace (run_cell13 demo_framework demo_draws demo_layers () ())
     = concat (map (epoch_calls demo_draws) [0..<10]) \<and>
   learned (run_cell13 demo_framework demo_draws demo_layers () ())
     = training_epochs demo_framework demo_draws 10
         \<lparr>the_model = \<lparr>fc1 = const_linear 784 (replicate 256 0),
                        fc2 = const_linear 256 (replicate 128 0),
                        fc3 = const_linear 128 (replicate 64 0),
                        fc4 = const_linear 64 [1 / 10, 0, 0, 0, 0, 0, 0, 0, 0, 0],
                        dropout_p = None, training = True\<rparr>,
          the_grads = (), the_optimizer = (), the_loss = 0\<rparr> \<and>
   stdout (run_cell13 demo_framework demo_draws demo_layers () ())
     = map (\<lambda>e. 100 * batch_mean_accuracy demo_framework
              (the_model (training_epochs demo_framework demo_draws (Suc e)
                 \<lparr>the_model = \<lparr>fc1 = const_linear 784 (replicate 256 0),
                                fc2 = const_linear 256 (replicate 128 0),
                                fc3 = const_linear 128 (replicate 64 0),
                                fc4 = const_linear 64 [1 / 10, 0, 0, 0, 0, 0, 0, 0, 0, 0],
                                dropout_p = None, training = True\<rparr>,
                  the_grads = (), the_optimizer = (), the_loss = 0\<rparr>))
              (test_order demo_draws e)) [0..<10]"
  using C6_training_loop_calls [OF keeps_shapes_demo wf_demo_layers [unfolded demo_layers_def]
      wf_data_demo, of "()" "()"]
  by (simp only: demo_layers_def)

section \<open>The printed accuracy and the accuracy over the test set\<close>

lemma dot_zero: "dot (replicate i 0) x = 0"
proof (induction i arbitrary: x)
  case 0
  then show ?case by (simp add: dot_def)
next
  case (Suc i)
  then show ?case by (cases x) (simp_all add: dot_def)
qed

lemma map2_replicate: "map2 f (replicate (length bs) w) bs = map (f w) bs"
  by (induction bs) simp_all

lemma affine_const: "affine (const_linear i bs) x = bs"
proof -
  have "map ((+) (0::real)) bs = bs" by (induction bs) simp_all
  then show ?thesis
    by (simp add: affine_def const_linear_def map2_replicate dot_zero)
qed

lemma forward_row_demo:
  "forward_row demo_model x = log_softmax_row [1 / 10, 0, 0, 0, 0, 0, 0, 0, 0, 0]"
  by (simp add: forward_row_def demo_model_def demo_layers_def Classifier_def affine_const)



















section \<open>Probabilities, exactly and as 32-bit floats\<close>

lemma exp_tenth:
  "110517091 / 100000000 \<le> exp (1 / 10 :: real) \<and> exp (1 / 10 :: real) \<le> 110517092 / 100000000"
proof -
  obtain t :: real where t: "\<bar>t\<bar> \<le> \<bar>1 / 10\<bar>"
    and e: "exp (1 / 10 :: real) = (\<Sum>m<8. (1 / 10) ^ m / fact m) + exp t / fact 8 * (1 / 10) ^ 8"
    using Maclaurin_exp_le [of "1 / 10" 8] by blast
  have s: "(\<Sum>m<8. (1 / 10 :: real) ^ m / fact m) = 55700614271 / 50400000000"
    by (simp add: lessThan_nat_numeral lessThan_Suc fact_numeral power_divide)
  have "t \<le> 1" using t by simp
  then have "exp t \<le> exp 1" by simp
  then have u: "exp t \<le> 3" by (rule order_trans) (rule exp_le)
  have l: "0 \<le> exp t" by simp
  have f: "fact 8 = (40320 :: real)" by (simp add: fact_numeral)
  have e': "exp (1 / 10 :: real) = 55700614271 / 50400000000 + exp t / 4032000000000"
    unfolding e s f by (simp add: power_divide)
  show ?thesis
    unfolding e' using u l by linarith
qed

lemma round_even_eq: "of_int k - 1 / 2 < y \<Longrightarrow> y < of_int k + 1 / 2 \<Longrightarrow> round_even y = k"
proof -
  assume a: "of_int k - 1 / 2 < y" "y < of_int k + 1 / 2"
  show ?thesis
  proof (cases "of_int k \<le> y")
    case True
    then have "\<lfloor>y\<rfloor> = k" using a by (intro floor_unique) simp_all
    then show ?thesis using a True by (simp add: round_even_def Let_def)
  next
    case False
    then have "\<lfloor>y\<rfloor> = k - 1" using a by (intro floor_unique) simp_all
    then show ?thesis using a False by (simp add: round_even_def Let_def)
  qed
qed

lemma ulp32_eq:
  assumes "2 powr of_int e \<le> \<bar>x\<bar>" and "\<bar>x\<bar> < 2 powr (of_int e + 1)" and "- 126 \<le> e"
  shows "ulp32 x = 2 powr (of_int e - 23)"
proof -
  have p: "0 < \<bar>x\<bar>" using assms(1) by (smt (verit) powr_gt_zero)
  have "of_int e \<le> log 2 \<bar>x\<bar>" using assms(1) p by (simp add: le_log_iff)
  moreover have "log 2 \<bar>x\<bar> < of_int e + 1" using assms(2) p by (simp add: log_less_iff)
  ultimately have "\<lfloor>log 2 \<bar>x\<bar>\<rfloor> = e" by (intro floor_unique) simp_all
  then show ?thesis using assms(3) by (simp add: ulp32_def max_def)
qed

lemma float32_eq:
  assumes "2 powr of_int e \<le> \<bar>x\<bar>" and "\<bar>x\<bar> < 2 powr (of_int e + 1)" and "- 126 \<le> e"
    and "of_int k - 1 / 2 < x / 2 powr (of_int e - 23)"
    and "x / 2 powr (of_int e - 23) < of_int k + 1 / 2"
  shows "float32 x = of_int k * 2 powr (of_int e - 23)"
proof -
  have "x \<noteq> 0" using assms(1) by (smt (verit) powr_gt_zero)
  moreover have "ulp32 x = 2 powr (of_int e - 23)" using assms(1,2,3) by (rule ulp32_eq)
  moreover have "round_even (x / 2 powr (of_int e - 23)) = k" using assms(4,5) by (rule round_even_eq)
  ultimately show ?thesis by (simp add: float32_def)
qed

lemma powr_m4: "2 powr (- 4 :: real) = 1 / 16" "2 powr (- 3 :: real) = 1 / 8"
  "2 powr (- 27 :: real) = 1 / 134217728"
  by (simp_all add: powr_minus_divide)

lemma float32_sixteenth:
  assumes "1 / 16 \<le> x" and "x < 1 / 8"
    and "of_int k - 1 / 2 < x * 134217728" and "x * 134217728 < of_int k + 1 / 2"
  shows "float32 x = of_int k / 134217728"
proof -
  have e1: "2 powr of_int (- 4) = (1 / 16 :: real)"
    and e2: "2 powr (of_int (- 4) + 1) = (1 / 8 :: real)"
    and e3: "2 powr (of_int (- 4) - 23) = (1 / 134217728 :: real)"
    by (simp_all add: powr_m4)
  have "float32 x = of_int k * 2 powr (of_int (- 4) - 23)"
  proof (rule float32_eq)
    show "2 powr of_int (- 4) \<le> \<bar>x\<bar>" unfolding e1 using assms(1) by linarith
    show "\<bar>x\<bar> < 2 powr (of_int (- 4) + 1)" unfolding e2 using assms(1,2) by linarith
    show "- 126 \<le> (- 4 :: int)" by simp
    show "of_int k - 1 / 2 < x / 2 powr (of_int (- 4) - 23)" unfolding e3 using assms(3) by simp
    show "x / 2 powr (of_int (- 4) - 23) < of_int k + 1 / 2" unfolding e3 using assms(4) by simp
  qed
  then show ?thesis unfolding e3 by simp
qed

lemma demo_p0_bounds:
  "1 / 16 \<le> exp (1 / 10) / (exp (1 / 10) + 9 :: real) \<and>
   exp (1 / 10) / (exp (1 / 10) + 9 :: real) < 1 / 8 \<and>
   14678973 - 1 / 2 < exp (1 / 10) / (exp (1 / 10) + 9 :: real) * 134217728 \<and>
   exp (1 / 10) / (exp (1 / 10) + 9 :: real) * 134217728 < 14678973 + 1 / 2"
proof -
  let ?E = "exp (1 / 10 :: real)"
  note b = exp_tenth
  have pos: "0 < ?E + 9" using b by linarith
  have "1 / 16 \<le> ?E / (?E + 9)" using b pos by (simp add: pos_le_divide_eq)
  moreover have "?E / (?E + 9) < 1 / 8" using b pos by (simp add: pos_divide_less_eq)
  moreover have "14678973 - 1 / 2 < ?E / (?E + 9) * 134217728"
    using b pos by (simp add: pos_less_divide_eq)
  moreover have "?E / (?E + 9) * 134217728 < 14678973 + 1 / 2"
    using b pos by (simp add: pos_divide_less_eq)
  ultimately show ?thesis by blast
qed

lemma demo_p1_bounds:
  "1 / 16 \<le> 1 / (exp (1 / 10) + 9 :: real) \<and>
   1 / (exp (1 / 10) + 9 :: real) < 1 / 8 \<and>
   13282084 - 1 / 2 < 1 / (exp (1 / 10) + 9 :: real) * 134217728 \<and>
   1 / (exp (1 / 10) + 9 :: real) * 134217728 < 13282084 + 1 / 2"
proof -
  let ?E = "exp (1 / 10 :: real)"
  note b = exp_tenth
  have pos: "0 < ?E + 9" using b by linarith
  have "1 / 16 \<le> 1 / (?E + 9)" using b pos by (simp add: pos_le_divide_eq)
  moreover have "1 / (?E + 9) < 1 / 8" using b pos by (simp add: pos_divide_less_eq)
  moreover have "13282084 - 1 / 2 < 1 / (?E + 9) * 134217728"
    using b pos by (simp add: pos_less_divide_eq)
  moreover have "1 / (?E + 9) * 134217728 < 13282084 + 1 / 2"
    using b pos by (simp add: pos_divide_less_eq)
  ultimately show ?thesis by blast
qed

lemma float32_p0:
  "float32 (exp (1 / 10) / (exp (1 / 10) + 9)) = 14678973 / 134217728"
  using float32_sixteenth [of "exp (1 / 10) / (exp (1 / 10) + 9)" 14678973] demo_p0_bounds
  by simp

lemma float32_p1:
  "float32 (1 / (exp (1 / 10) + 9)) = 13282084 / 134217728"
  using float32_sixteenth [of "1 / (exp (1 / 10) + 9)" 13282084] demo_p1_bounds
  by simp

lemma near_p0:
  "\<bar>14678973 / 134217728 - exp (1 / 10) / (exp (1 / 10) + 9 :: real)\<bar>
     \<le> 1 / 16777216 * \<bar>exp (1 / 10) / (exp (1 / 10) + 9)\<bar>"
  using demo_p0_bounds by linarith

lemma near_p1:
  "\<bar>13282084 / 134217728 - 1 / (exp (1 / 10) + 9 :: real)\<bar>
     \<le> 1 / 16777216 * \<bar>1 / (exp (1 / 10) + 9)\<bar>"
  using demo_p1_bounds by linarith

lemma demo_probabilities:
  "map exp (forward_row demo_model x)
     = [exp (1 / 10) / (exp (1 / 10) + 9), 1 / (exp (1 / 10) + 9), 1 / (exp (1 / 10) + 9),
        1 / (exp (1 / 10) + 9), 1 / (exp (1 / 10) + 9), 1 / (exp (1 / 10) + 9),
        1 / (exp (1 / 10) + 9), 1 / (exp (1 / 10) + 9), 1 / (exp (1 / 10) + 9),
        1 / (exp (1 / 10) + 9)]"
proof -
  have p: "0 < exp (1 / 10 :: real) + 9" by (simp add: add_pos_pos)
  have a: "exp (- ln (exp (1 / 10 :: real) + 9)) = 1 / (exp (1 / 10) + 9)"
    using p by (simp add: exp_minus inverse_eq_divide)
  show ?thesis
    using p by (simp add: forward_row_demo log_softmax_row_def exp_diff a)
qed

lemma demo_float32:
  "map float32 (map exp (forward_row demo_model x))
     = [14678973 / 134217728, 13282084 / 134217728, 13282084 / 134217728,
        13282084 / 134217728, 13282084 / 134217728, 13282084 / 134217728,
        13282084 / 134217728, 13282084 / 134217728, 13282084 / 134217728,
        13282084 / 134217728]"
  unfolding demo_probabilities by (simp only: list.map float32_p0 float32_p1)

lemma sum_list_close:
  "list_all2 (\<lambda>a b. \<bar>a - b\<bar> \<le> eps * \<bar>b\<bar>) qs ps \<Longrightarrow>
   \<bar>sum_list qs - sum_list ps\<bar> \<le> eps * sum_list (map abs ps)" for eps :: real
proof (induction rule: list_all2_induct)
  case Nil
  then show ?case by simp
next
  case (Cons a qs b ps)
  have "\<bar>(a + sum_list qs) - (b + sum_list ps)\<bar> \<le> \<bar>a - b\<bar> + \<bar>sum_list qs - sum_list ps\<bar>"
    by linarith
  also have "\<dots> \<le> eps * \<bar>b\<bar> + eps * sum_list (map abs ps)"
    using Cons by (intro add_mono)
  finally show ?case by (simp add: algebra_simps)
qed

lemma close_nonneg:
  "list_all2 (\<lambda>a b. \<bar>a - b\<bar> \<le> eps * \<bar>b\<bar>) qs ps \<Longrightarrow> list_all (\<lambda>p. 0 \<le> p) ps \<Longrightarrow>
   eps \<le> 1 \<Longrightarrow> list_all (\<lambda>a. 0 \<le> a) qs" for eps :: real
proof (induction rule: list_all2_induct)
  case Nil
  then show ?case by simp
next
  case (Cons a qs b ps)
  have b: "0 \<le> b" using Cons.prems by simp
  then have "eps * b \<le> 1 * b" using Cons.prems(2) by (intro mult_right_mono)
  with Cons.hyps(1) b have "0 \<le> a" by simp
  with Cons show ?case by simp
qed

lemma rows_close:
  "list_all2 P qs ps \<Longrightarrow> list_all2 (list_all2 P) (rows n m qs) (rows n m ps)"
  by (simp add: rows_def list_all2_map1 list_all2_map2 list_all2_same list_all2_takeI
      list_all2_dropI)

lemma list_all2_left: "list_all2 R xs ys \<Longrightarrow> x \<in> set xs \<Longrightarrow> \<exists>y\<in>set ys. R x y"
  by (induction rule: list_all2_induct) auto

lemma sum_abs_pos: "list_all (\<lambda>p. 0 < p) ps \<Longrightarrow> sum_list (map abs ps) = sum_list ps"
  for ps :: "real list"
  by (induction ps) simp_all

text \<open>
  C10 (as amended).  On a batch of \<open>n > 0\<close> examples of 784 entries each, \<open>torch.exp\<close> of the
  Classifier's output has shape \<open>(n, 10)\<close>; computed exactly, every entry is positive and the
  10 entries of each row sum to 1.  A float tensor holds these entries up to rounding: when
  every entry it holds is within a relative error \<open>eps \<le> 1\<close> of the exact one, every entry it
  holds is nonnegative and the 10 entries of each of its rows sum to 1 up to \<open>eps\<close>.
\<close>

theorem C10_exp_output_is_distribution:
  assumes "wf_classifier m" and "shape x = n # rest" and "0 < n"
    and "length (dat x) = n * 784" and "0 \<le> eps" and "eps \<le> 1"
  shows "\<exists>out. forward m x = Inr out \<and> shape (exp_t out) = [n, 10] \<and>
           list_all (\<lambda>p. 0 < p) (dat (exp_t out)) \<and>
           list_all (\<lambda>r. length r = 10 \<and> sum_list r = 1) (rows n 10 (dat (exp_t out))) \<and>
           (rounded_within eps q (exp_t out) \<longrightarrow>
              shape q = [n, 10] \<and> list_all (\<lambda>a. 0 \<le> a) (dat q) \<and>
              list_all (\<lambda>r. length r = 10 \<and> \<bar>sum_list r - 1\<bar> \<le> eps) (rows n 10 (dat q)))"
proof -
  let ?rs = "map (forward_row m) (rows n 784 (dat x))"
  let ?ps = "map (map exp) ?rs"
  let ?close = "\<lambda>a b :: real. \<bar>a - b\<bar> \<le> eps * \<bar>b\<bar>"
  have len: "list_all (\<lambda>r. length r = 10) ?ps"
    using assms(1) by (simp add: list_all_iff length_forward_row)
  have fw: "forward m x = Inr (of_rows n 10 ?rs)"
    using assms(1,2,3,4) by (rule forward_rows)
  have e: "exp_t (of_rows n 10 ?rs) = of_rows n 10 ?ps"
    by (rule exp_t_of_rows)
  have pos: "list_all (\<lambda>p. 0 < p) (dat (of_rows n 10 ?ps))"
    by (auto simp add: list_all_iff of_rows_def)
  have rws: "rows n 10 (dat (of_rows n 10 ?ps)) = ?ps"
    using len by (simp add: of_rows_def rows_concat)
  have one: "list_all (\<lambda>r. length r = 10 \<and> sum_list r = 1) ?ps"
    using assms(1) by (simp add: list_all_iff length_forward_row forward_row_distribution)
  have sh: "shape (of_rows n 10 ?ps) = [n, 10]"
    by (simp add: of_rows_def)
  have one': "list_all (\<lambda>r. length r = 10 \<and> sum_list r = 1) (rows n 10 (dat (of_rows n 10 ?ps)))"
    using one by (simp only: rws)
  have imp: "shape q = [n, 10] \<and> list_all (\<lambda>a. 0 \<le> a) (dat q) \<and>
        list_all (\<lambda>r. length r = 10 \<and> \<bar>sum_list r - 1\<bar> \<le> eps) (rows n 10 (dat q))"
    if rw: "rounded_within eps q (of_rows n 10 ?ps)"
  proof -
    from rw have q0: "shape q = shape (of_rows n 10 ?ps)"
      and cl: "list_all2 ?close (dat q) (dat (of_rows n 10 ?ps))"
      unfolding rounded_within_def by blast+
    from q0 have q: "shape q = [n, 10]" by (simp only: sh)
    have "list_all (\<lambda>p. 0 \<le> p) (dat (of_rows n 10 ?ps))"
      using pos by (auto simp add: list_all_iff less_imp_le)
    with cl have nn: "list_all (\<lambda>a. 0 \<le> a) (dat q)"
      using assms(6) by (rule close_nonneg)
    have rc: "list_all2 (list_all2 ?close) (rows n 10 (dat q)) ?ps"
      using rows_close [OF cl, of n 10] by (simp only: rws)
    have "length r = 10 \<and> \<bar>sum_list r - 1\<bar> \<le> eps" if r: "r \<in> set (rows n 10 (dat q))" for r
    proof -
      from list_all2_left [OF rc r] obtain p where p: "p \<in> set ?ps" "list_all2 ?close r p"
        by blast
      from p(1) one have lp: "length p = 10" and sp: "sum_list p = 1"
        by (auto simp add: list_all_iff)
      from p(1) have pp: "list_all (\<lambda>v. 0 < v) p"
        by (auto simp add: list_all_iff)
      have "\<bar>sum_list r - sum_list p\<bar> \<le> eps * sum_list (map abs p)"
        using p(2) by (rule sum_list_close)
      then have "\<bar>sum_list r - 1\<bar> \<le> eps"
        by (simp add: sum_abs_pos [OF pp] sp)
      moreover have "length r = 10"
        using list_all2_lengthD [OF p(2)] lp by simp
      ultimately show ?thesis by simp
    qed
    then have "list_all (\<lambda>r. length r = 10 \<and> \<bar>sum_list r - 1\<bar> \<le> eps) (rows n 10 (dat q))"
      by (simp add: list_all_iff)
    with q nn show ?thesis by simp
  qed
  have "forward m x = Inr (of_rows n 10 ?rs) \<and> shape (exp_t (of_rows n 10 ?rs)) = [n, 10] \<and>
           list_all (\<lambda>p. 0 < p) (dat (exp_t (of_rows n 10 ?rs))) \<and>
           list_all (\<lambda>r. length r = 10 \<and> sum_list r = 1)
             (rows n 10 (dat (exp_t (of_rows n 10 ?rs)))) \<and>
           (rounded_within eps q (exp_t (of_rows n 10 ?rs)) \<longrightarrow>
              shape q = [n, 10] \<and> list_all (\<lambda>a. 0 \<le> a) (dat q) \<and>
              list_all (\<lambda>r. length r = 10 \<and> \<bar>sum_list r - 1\<bar> \<le> eps) (rows n 10 (dat q)))"
    unfolding e using fw pos one' sh imp by blast
  then show ?thesis by blast
qed

lemma forward_demo_one:
  "exp_t (of_rows 1 10 (map (forward_row demo_model) (rows 1 784 (dat (demo_images 1)))))
     = \<lparr>shape = [1, 10],
        dat = [exp (1 / 10) / (exp (1 / 10) + 9), 1 / (exp (1 / 10) + 9), 1 / (exp (1 / 10) + 9),
        1 / (exp (1 / 10) + 9), 1 / (exp (1 / 10) + 9), 1 / (exp (1 / 10) + 9),
        1 / (exp (1 / 10) + 9), 1 / (exp (1 / 10) + 9), 1 / (exp (1 / 10) + 9),
        1 / (exp (1 / 10) + 9)]\<rparr>"
  by (simp add: rows_def of_rows_def exp_t_def demo_probabilities)

theorem C10_exp_output_is_distribution_witness:
  "\<exists>out. forward demo_model (demo_images 1) = Inr out \<and> shape (exp_t out) = [1, 10] \<and>
     list_all (\<lambda>p. 0 < p) (dat (exp_t out)) \<and>
     list_all (\<lambda>r. length r = 10 \<and> sum_list r = 1) (rows 1 10 (dat (exp_t out))) \<and>
     rounded_within (1 / 16777216)
       \<lparr>shape = [1, 10],
        dat = [14678973 / 134217728, 13282084 / 134217728, 13282084 / 134217728,
               13282084 / 134217728, 13282084 / 134217728, 13282084 / 134217728,
               13282084 / 134217728, 13282084 / 134217728, 13282084 / 134217728,
               13282084 / 134217728]\<rparr> (exp_t out) \<and>
     list_all (\<lambda>a. 0 \<le> a)
       [14678973 / 134217728, 13282084 / 134217728, 13282084 / 134217728,
        13282084 / 134217728, 13282084 / 134217728, 13282084 / 134217728,
        13282084 / 134217728, 13282084 / 134217728, 13282084 / 134217728,
        13282084 / 134217728 :: real] \<and>
     list_all (\<lambda>r. length r = 10 \<and> \<bar>sum_list r - 1\<bar> \<le> 1 / 16777216)
       (rows 1 10
          [14678973 / 134217728, 13282084 / 134217728, 13282084 / 134217728,
           13282084 / 134217728, 13282084 / 134217728, 13282084 / 134217728,
           13282084 / 134217728, 13282084 / 134217728, 13282084 / 134217728,
           13282084 / 134217728 :: real])"
proof -
  let ?q = "\<lparr>shape = [1, 10],
        dat = [14678973 / 134217728, 13282084 / 134217728, 13282084 / 134217728,
               13282084 / 134217728, 13282084 / 134217728, 13282084 / 134217728,
               13282084 / 134217728, 13282084 / 134217728, 13282084 / 134217728,
               13282084 / 134217728 :: real]\<rparr>"
  have sh: "shape (demo_images 1) = 1 # [1, 28, 28]" "length (dat (demo_images 1)) = 1 * 784"
    by (simp_all add: demo_images_def)
  have z: "(0::nat) < 1" "(0::real) \<le> 1 / 16777216" "(1 / 16777216 :: real) \<le> 1" by simp_all
  from C10_exp_output_is_distribution [OF wf_demo_model sh(1) z(1) sh(2) z(2,3), of ?q]
  obtain out where out: "forward demo_model (demo_images 1) = Inr out"
    "shape (exp_t out) = [1, 10]" "list_all (\<lambda>p. 0 < p) (dat (exp_t out))"
    "list_all (\<lambda>r. length r = 10 \<and> sum_list r = 1) (rows 1 10 (dat (exp_t out)))"
    and imp: "rounded_within (1 / 16777216) ?q (exp_t out) \<longrightarrow>
              shape ?q = [1, 10] \<and> list_all (\<lambda>a. 0 \<le> a) (dat ?q) \<and>
              list_all (\<lambda>r. length r = 10 \<and> \<bar>sum_list r - 1\<bar> \<le> 1 / 16777216) (rows 1 10 (dat ?q))"
    by blast
  have "forward demo_model (demo_images 1)
          = Inr (of_rows 1 10 (map (forward_row demo_model) (rows 1 784 (dat (demo_images 1)))))"
    using wf_demo_model sh(1) z(1) sh(2) by (rule forward_rows)
  with out(1) have "exp_t out = exp_t (of_rows 1 10 (map (forward_row demo_model) (rows 1 784 (dat (demo_images 1)))))"
    by simp
  then have eo: "exp_t out = \<lparr>shape = [1, 10],
        dat = [exp (1 / 10) / (exp (1 / 10) + 9), 1 / (exp (1 / 10) + 9), 1 / (exp (1 / 10) + 9),
        1 / (exp (1 / 10) + 9), 1 / (exp (1 / 10) + 9), 1 / (exp (1 / 10) + 9),
        1 / (exp (1 / 10) + 9), 1 / (exp (1 / 10) + 9), 1 / (exp (1 / 10) + 9),
        1 / (exp (1 / 10) + 9)]\<rparr>"
    by (simp only: forward_demo_one)
  have rw: "rounded_within (1 / 16777216) ?q (exp_t out)"
    unfolding eo rounded_within_def
    by (simp only: tensor.select_convs list_all2_Cons list_all2_Nil near_p0 near_p1 simp_thms)
  with imp out show ?thesis by auto
qed

text \<open>
  C10 as stated fails on the numbers a float tensor holds, even at their most accurate.  For
  the all-zero image and the model \<open>demo_model\<close> the exact probabilities of a row are
  \<open>e\<^sup>0\<^sup>.\<^sup>1 / (e\<^sup>0\<^sup>.\<^sup>1 + 9)\<close> once and \<open>1 / (e\<^sup>0\<^sup>.\<^sup>1 + 9)\<close> nine times.  The binary32 numbers nearest
  to them are \<open>14678973 / 2\<^sup>2\<^sup>7\<close> and \<open>13282084 / 2\<^sup>2\<^sup>7\<close>, and these ten numbers sum to
  \<open>1 + 2\<^sup>-\<^sup>2\<^sup>7\<close>.
\<close>

theorem C10_counterexample:
  "ps_float32 demo_model (demo_images 1)
     = Inr \<lparr>shape = [1, 10],
            dat = [14678973 / 134217728, 13282084 / 134217728, 13282084 / 134217728,
                   13282084 / 134217728, 13282084 / 134217728, 13282084 / 134217728,
                   13282084 / 134217728, 13282084 / 134217728, 13282084 / 134217728,
                   13282084 / 134217728]\<rparr> \<and>
   sum_list [14678973 / 134217728, 13282084 / 134217728, 13282084 / 134217728,
             13282084 / 134217728, 13282084 / 134217728, 13282084 / 134217728,
             13282084 / 134217728, 13282084 / 134217728, 13282084 / 134217728,
             13282084 / 134217728 :: real] = 1 + 1 / 134217728 \<and>
   sum_list [14678973 / 134217728, 13282084 / 134217728, 13282084 / 134217728,
             13282084 / 134217728, 13282084 / 134217728, 13282084 / 134217728,
             13282084 / 134217728, 13282084 / 134217728, 13282084 / 134217728,
             13282084 / 134217728 :: real] \<noteq> 1"
proof -
  have sh: "shape (demo_images 1) = 1 # [1, 28, 28]" "length (dat (demo_images 1)) = 1 * 784"
    by (simp_all add: demo_images_def)
  have "forward demo_model (demo_images 1)
          = Inr (of_rows 1 10 (map (forward_row demo_model) (rows 1 784 (dat (demo_images 1)))))"
    using wf_demo_model sh(1) _ sh(2) by (rule forward_rows) simp
  then have "ps_float32 demo_model (demo_images 1)
          = Inr (float32_t \<lparr>shape = [1, 10],
        dat = [exp (1 / 10) / (exp (1 / 10) + 9), 1 / (exp (1 / 10) + 9), 1 / (exp (1 / 10) + 9),
        1 / (exp (1 / 10) + 9), 1 / (exp (1 / 10) + 9), 1 / (exp (1 / 10) + 9),
        1 / (exp (1 / 10) + 9), 1 / (exp (1 / 10) + 9), 1 / (exp (1 / 10) + 9),
        1 / (exp (1 / 10) + 9)]\<rparr>)"
    by (simp only: ps_float32_def and_then_def sum.case forward_demo_one)
  then show ?thesis
    by (simp add: float32_t_def float32_p0 float32_p1)
qed

section \<open>Evaluation mode is deterministic\<close>

lemma call_model_masks: "\<not> training m \<Longrightarrow> call_model m ks x = call_model m ks' x"
  by (simp add: call_model_eval)

lemma validation_batch_masks:
  "\<not> training (model s) \<Longrightarrow> validation_batch fw ks b s = validation_batch fw ks' b s"
  using call_model_masks [of "model s" ks "fst b" ks']
  by (simp add: validation_batch_def Let_def)

lemma validation_loop_masks:
  "\<not> training (model s) \<Longrightarrow> validation_loop fw rng i bs s = validation_loop fw rng' i bs s"
proof (induction bs arbitrary: i s)
  case Nil
  then show ?case by simp
next
  case (Cons b bs)
  have "validation_batch fw (rng i) b s = validation_batch fw (rng' i) b s"
    using Cons.prems by (rule validation_batch_masks)
  moreover have "\<not> training (model (validation_batch fw (rng' i) b s))"
    using Cons.prems by simp
  ultimately show ?case using Cons.IH by simp
qed

lemma validation_pass_dropout_masks:
  "validation_pass_dropout fw rng sh s = validation_pass_dropout fw rng' sh s"
proof (cases "raised s = None")
  case False
  then show ?thesis by (simp add: validation_pass_dropout_def)
next
  case True
  let ?t = "model_eval (s\<lparr>accuracy := None, grad_enabled := False\<rparr>)"
  have "\<not> training (model ?t)"
    using True by (simp add: model_eval_def eval_mode_def)
  then have "validation_loop fw rng 0 (DataLoader sh) ?t = validation_loop fw rng' 0 (DataLoader sh) ?t"
    by (rule validation_loop_masks)
  then show ?thesis
    by (simp add: validation_pass_dropout_def Let_def no_grad_def)
qed

lemma infer_image_masks:
  "\<not> training (model s) \<Longrightarrow> infer_image ks images s = infer_image ks' images s"
proof -
  assume "\<not> training (model s)"
  then have "call_model (model s) ks x = call_model (model s) ks' x" for x
    by (rule call_model_masks)
  then show ?thesis
    by (simp add: infer_image_def Let_def split: sum.splits)
qed

lemma inference_cell_masks: "inference_cell ks sh s = inference_cell ks' sh s"
proof (cases "raised s = None")
  case False
  then show ?thesis by (simp add: inference_cell_def)
next
  case True
  then have "\<not> training (model (model_eval s))"
    by (simp add: model_eval_def eval_mode_def)
  then have "infer_image ks images (model_eval s) = infer_image ks' images (model_eval s)" for images
    by (rule infer_image_masks)
  then show ?thesis
    by (simp add: inference_cell_def Let_def split: list.splits)
qed

text \<open>
  C9.  In evaluation mode the forward pass does not depend on the random draws: for the same
  parameters and input, any two draws of dropout masks give the same output.  Hence the
  validation pass of cell 17 and the inference cell, which switch to evaluation mode first,
  produce sessions (printed accuracies and plotted probabilities included) that do not depend
  on the draws.
\<close>

theorem C9_eval_mode_deterministic:
  "call_model (eval_mode m) ks x = call_model (eval_mode m) ks' x \<and>
   validation_pass_dropout fw rng sh s = validation_pass_dropout fw rng' sh s \<and>
   inference_cell ks sh s = inference_cell ks' sh s"
proof -
  have "call_model (eval_mode m) ks x = call_model (eval_mode m) ks' x"
    by (rule call_model_masks) (simp add: eval_mode_def)
  moreover note validation_pass_dropout_masks [of fw rng sh s rng'] inference_cell_masks [of ks sh s ks']
  ultimately show ?thesis by blast
qed

section \<open>The inference cell\<close>

lemma forward_row_eval [simp]: "forward_row (eval_mode m) x = forward_row m x"
  by (simp add: forward_row_def eval_mode_def)

lemma wf_eval_mode [simp]: "wf_classifier (eval_mode m) = wf_classifier m"
  by (simp add: wf_classifier_def eval_mode_def)






section \<open>Training and evaluation mode in cell 17\<close>

lemma train_batch_mode:
  assumes "list_all mode_ok (trace s)" and "raised s = None \<longrightarrow> training (model s)"
  shows "list_all mode_ok (trace (train_batch fw ks b s)) \<and>
         (raised (train_batch fw ks b s) = None \<longrightarrow> training (model (train_batch fw ks b s)))"
  using assms by (simp add: train_batch_def Let_def mode_ok_def split: sum.splits)

lemma train_loop_mode:
  assumes "list_all mode_ok (trace s)" and "raised s = None \<longrightarrow> training (model s)"
  shows "list_all mode_ok (trace (train_loop fw rng i bs s)) \<and>
         (raised (train_loop fw rng i bs s) = None \<longrightarrow> training (model (train_loop fw rng i bs s)))"
  using assms
proof (induction bs arbitrary: i s)
  case Nil
  then show ?case by simp
next
  case (Cons b bs)
  from train_batch_mode [OF Cons.prems, of fw "rng i" b]
  have "list_all mode_ok (trace (train_batch fw (rng i) b s))"
    "raised (train_batch fw (rng i) b s) = None \<longrightarrow> training (model (train_batch fw (rng i) b s))"
    by blast+
  from Cons.IH [OF this] show ?case by simp
qed

lemma validation_batch_mode:
  assumes "list_all mode_ok (trace s)" and "raised s = None \<longrightarrow> \<not> training (model s)"
  shows "list_all mode_ok (trace (validation_batch fw ks b s)) \<and>
         (raised (validation_batch fw ks b s) = None \<longrightarrow> \<not> training (model (validation_batch fw ks b s)))"
  using assms by (simp add: validation_batch_def Let_def mode_ok_def split: sum.splits)

lemma validation_loop_mode:
  assumes "list_all mode_ok (trace s)" and "raised s = None \<longrightarrow> \<not> training (model s)"
  shows "list_all mode_ok (trace (validation_loop fw rng i bs s)) \<and>
         (raised (validation_loop fw rng i bs s) = None \<longrightarrow> \<not> training (model (validation_loop fw rng i bs s)))"
  using assms
proof (induction bs arbitrary: i s)
  case Nil
  then show ?case by simp
next
  case (Cons b bs)
  from validation_batch_mode [OF Cons.prems, of fw "rng i" b]
  have "list_all mode_ok (trace (validation_batch fw (rng i) b s))"
    "raised (validation_batch fw (rng i) b s) = None \<longrightarrow> \<not> training (model (validation_batch fw (rng i) b s))"
    by blast+
  from Cons.IH [OF this] show ?case by simp
qed

lemma print_accuracy_mode:
  "list_all mode_ok (trace (print_accuracy n s)) = list_all mode_ok (trace s)"
  by (simp add: print_accuracy_def mode_ok_def split: option.splits)

lemma model_train_mode:
  assumes "list_all mode_ok (trace s)"
  shows "list_all mode_ok (trace (model_train s)) \<and>
         (raised (model_train s) = None \<longrightarrow> training (model (model_train s)))"
  using assms by (auto simp add: model_train_def train_mode_def mode_ok_def)

lemma validation_pass_dropout_mode:
  assumes "list_all mode_ok (trace s)" and "raised s = None \<longrightarrow> training (model s)"
  shows "list_all mode_ok (trace (validation_pass_dropout fw rng sh s)) \<and>
         (raised (validation_pass_dropout fw rng sh s) = None
            \<longrightarrow> training (model (validation_pass_dropout fw rng sh s)))"
proof (cases "raised s = None")
  case False
  then show ?thesis using assms by (auto simp add: validation_pass_dropout_def)
next
  case True
  let ?t = "model_eval (s\<lparr>accuracy := None, grad_enabled := False\<rparr>)"
  let ?u = "validation_loop fw rng 0 (DataLoader sh) ?t"
  let ?p = "print_accuracy (len_loader sh) (?u\<lparr>grad_enabled := grad_enabled s\<rparr>)"
  have "list_all mode_ok (trace ?t)" "raised ?t = None \<longrightarrow> \<not> training (model ?t)"
    using assms(1) True by (simp_all add: model_eval_def eval_mode_def mode_ok_def)
  from validation_loop_mode [OF this, of fw rng 0 "DataLoader sh"]
  have u: "list_all mode_ok (trace ?u)" by blast
  have p: "list_all mode_ok (trace ?p)"
    using u by (simp add: print_accuracy_mode)
  have "list_all mode_ok (trace (model_train ?p)) \<and>
        (raised (model_train ?p) = None \<longrightarrow> training (model (model_train ?p)))"
    using p by (rule model_train_mode)
  moreover have "validation_pass_dropout fw rng sh s = model_train ?p"
    using True by (simp add: validation_pass_dropout_def Let_def no_grad_def)
  ultimately show ?thesis by simp
qed

lemma epoch_dropout_mode:
  assumes "list_all mode_ok (trace s)" and "raised s = None \<longrightarrow> training (model s)"
  shows "list_all mode_ok (trace (epoch_dropout fw d e s)) \<and>
         (raised (epoch_dropout fw d e s) = None \<longrightarrow> training (model (epoch_dropout fw d e s)))"
proof (cases "raised s = None")
  case False
  then show ?thesis using assms by (auto simp add: epoch_dropout_def)
next
  case True
  let ?s1 = "s\<lparr>running_loss := 0\<rparr>"
  let ?s2 = "train_loop fw (train_masks d e) 0 (DataLoader (train_order d e)) ?s1"
  have "list_all mode_ok (trace ?s1)" "raised ?s1 = None \<longrightarrow> training (model ?s1)"
    using assms by simp_all
  from train_loop_mode [OF this, of fw "train_masks d e" 0 "DataLoader (train_order d e)"]
  have "list_all mode_ok (trace ?s2)" "raised ?s2 = None \<longrightarrow> training (model ?s2)"
    by blast+
  from validation_pass_dropout_mode [OF this, of fw "test_masks d e" "test_order d e"]
  show ?thesis using True by (simp add: epoch_dropout_def Let_def)
qed

lemma first_epochs_dropout_mode:
  assumes "list_all mode_ok (trace s)" and "raised s = None \<longrightarrow> training (model s)"
  shows "list_all mode_ok (trace (first_epochs_dropout fw d n s)) \<and>
         (raised (first_epochs_dropout fw d n s) = None
            \<longrightarrow> training (model (first_epochs_dropout fw d n s)))"
proof (induction n)
  case 0
  then show ?case using assms by (simp add: first_epochs_dropout_def)
next
  case (Suc n)
  then have "list_all mode_ok (trace (first_epochs_dropout fw d n s))"
    "raised (first_epochs_dropout fw d n s) = None
       \<longrightarrow> training (model (first_epochs_dropout fw d n s))"
    by blast+
  from epoch_dropout_mode [OF this, of fw d n]
  show ?case by (simp add: first_epochs_dropout_def)
qed

lemma run_cell17_mode: "list_all mode_ok (trace (run_cell17 fw d ps g st))"
proof -
  obtain l1 l2 l3 l4 where ps: "ps = (l1, l2, l3, l4)" by (cases ps) auto
  let ?s = "start (Classifier_dropout l1 l2 l3 l4) g st"
  have "list_all mode_ok (trace ?s)" "raised ?s = None \<longrightarrow> training (model ?s)"
    by (simp_all add: start_def Classifier_dropout_def)
  from first_epochs_dropout_mode [OF this, of fw d epochs]
  show ?thesis by (simp add: ps run_cell17_def)
qed

lemma train_eval_mode: "training m \<Longrightarrow> train_mode (eval_mode m) = m"
  by (simp add: train_mode_def eval_mode_def)

lemma fraction_correct_eval [simp]: "fraction_correct fw (eval_mode m) c = fraction_correct fw m c"
proof -
  have "correct fw (eval_mode m) = correct fw m"
    by (simp add: fun_eq_iff correct_def predict_def)
  then show ?thesis by (simp add: fraction_correct_def)
qed

lemma batch_mean_accuracy_eval [simp]:
  "batch_mean_accuracy fw (eval_mode m) sh = batch_mean_accuracy fw m sh"
proof -
  have "fraction_correct fw (eval_mode m) = fraction_correct fw m"
    by (simp add: fun_eq_iff)
  then show ?thesis by (simp add: batch_mean_accuracy_def)
qed

lemma validation_pass_dropout_eq:
  assumes "raised s = None" and "wf_classifier (model s)"
    and "training (model s)" and "sh \<noteq> []" and "list_all wf_example sh"
  shows "validation_pass_dropout fw rng sh s
           = s\<lparr>accuracy := Some (sum_list (map (fraction_correct fw (model s)) (chunks batch_size sh))),
               trace := trace s @ [ModelEval] @ replicate (len_loader sh)
                   (Forward ValidationPass False False) @ [PrintAccuracy, ModelTrain],
               stdout := stdout s @ [100 * batch_mean_accuracy fw (model s) sh]\<rparr>"
proof -
  let ?cs = "chunks batch_size sh"
  let ?s1 = "s\<lparr>accuracy := None, grad_enabled := False, model := eval_mode (model s),
               trace := trace s @ [ModelEval]\<rparr>"
  have s1: "model_eval (s\<lparr>accuracy := None, grad_enabled := False\<rparr>) = ?s1"
    using assms(1) by (simp add: model_eval_def)
  have cs: "list_all (\<lambda>c. c \<noteq> [] \<and> list_all wf_example c) ?cs"
    using chunks_all [of batch_size wf_example sh] assms(5)
    by (simp add: batch_size_def list_all_iff)
  have ne: "?cs \<noteq> []"
    using assms(4) by (intro chunks_nonempty) (simp_all add: batch_size_def)
  have len: "len_loader sh = length ?cs"
    by (simp add: len_loader_def length_chunks batch_size_def)
  then have pos: "len_loader sh \<noteq> 0" using ne by simp
  have nt: "\<not> training (model ?s1)" by (simp add: eval_mode_def)
  have loop: "validation_loop fw rng 0 (DataLoader sh) ?s1
        = ?s1\<lparr>trace := trace ?s1 @ replicate (length ?cs)
                   (Forward ValidationPass (training (model ?s1)) (grad_enabled ?s1)),
               accuracy := (if ?cs = [] then accuracy ?s1
                            else Some (acc_val (accuracy ?s1)
                                       + sum_list (map (fraction_correct fw (model ?s1)) ?cs)))\<rparr>"
    unfolding DataLoader_def
    using assms(1,2) nt by (intro validation_loop_collate cs) simp_all
  have fr: "map (fraction_correct fw (eval_mode (model s))) ?cs = map (fraction_correct fw (model s)) ?cs"
    by simp
  show ?thesis
    using assms(1) ne pos nt
    by (simp add: validation_pass_dropout_def Let_def no_grad_def s1 loop print_accuracy_def
        acc_val_def batch_mean_accuracy_def len [symmetric] model_train_def
        train_eval_mode [OF assms(3)] fr)
qed

lemma epoch_dropout_ok:
  assumes ks: "keeps_shapes fw" and r: "ready17 s"
    and tr: "list_all wf_example (train_order d e)"
    and te: "list_all wf_example (test_order d e)" "test_order d e \<noteq> []"
  shows "ready17 (epoch_dropout fw d e s) \<and>
         trace (epoch_dropout fw d e s) = trace s @ epoch_calls_dropout d e \<and>
         stdout (epoch_dropout fw d e s)
           = stdout s @ [100 * batch_mean_accuracy fw
                           (the_model (training_epoch fw d e (learned s))) (test_order d e)] \<and>
         learned (epoch_dropout fw d e s) = training_epoch fw d e (learned s)"
proof -
  let ?s1 = "s\<lparr>running_loss := 0\<rparr>"
  let ?s2 = "train_loop fw (train_masks d e) 0 (DataLoader (train_order d e)) ?s1"
  from r have r0: "raised s = None" and wf: "wf_classifier (model s)"
    and tm: "training (model s)" and ge: "grad_enabled s" and l: "lr s = 3 / 1000"
    by (simp_all add: ready17_def)
  have t: "raised ?s2 = None" "wf_classifier (model ?s2)"
    "trace ?s2 = trace ?s1 @ concat (replicate (length (DataLoader (train_order d e)))
               [ZeroGrad, Forward TrainingPass (training (model ?s1)) (grad_enabled ?s1),
                NLLLoss, Backward, AdamStep (lr ?s1)])"
    using train_loop_ok [OF ks wf_batch_DataLoader [OF tr], of ?s1 "train_masks d e" 0] r0 wf
    by simp_all
  have tm2: "training (model ?s2)" using tm by simp
  have v: "validation_pass_dropout fw (test_masks d e) (test_order d e) ?s2
      = ?s2\<lparr>accuracy := Some (sum_list (map (fraction_correct fw (model ?s2)) (chunks batch_size (test_order d e)))),
               trace := trace ?s2 @ [ModelEval] @ replicate (len_loader (test_order d e))
                   (Forward ValidationPass False False) @ [PrintAccuracy, ModelTrain],
               stdout := stdout ?s2 @ [100 * batch_mean_accuracy fw (model ?s2) (test_order d e)]\<rparr>"
    by (rule validation_pass_dropout_eq [OF t(1,2) tm2 te(2,1)])
  have ep: "epoch_dropout fw d e s = validation_pass_dropout fw (test_masks d e) (test_order d e) ?s2"
    using r0 by (simp add: epoch_dropout_def Let_def)
  have le: "learned ?s2 = training_epoch fw d e (learned s)"
  proof -
    have cs: "list_all (\<lambda>c. c \<noteq> [] \<and> list_all wf_example c) (chunks batch_size (train_order d e))"
      using chunks_all [of batch_size wf_example "train_order d e"] tr
      by (simp add: batch_size_def list_all_iff)
    have "learned ?s2 = training_steps fw (train_masks d e) 0 (chunks batch_size (train_order d e))
                          (learned ?s1)"
      unfolding DataLoader_def
      using r0 wf tm l by (intro train_loop_learned ks cs) simp_all
    moreover have "learned ?s1 = (learned s)\<lparr>the_loss := 0\<rparr>"
      by (simp add: learned_def)
    ultimately show ?thesis by (simp add: training_epoch_def)
  qed
  have m2: "model ?s2 = the_model (training_epoch fw d e (learned s))"
    unfolding le [symmetric] by (simp add: learned_def)
  have "ready17 (epoch_dropout fw d e s)"
    unfolding ep v using t(1,2) tm ge l by (simp add: ready17_def)
  moreover have "trace (epoch_dropout fw d e s) = trace s @ epoch_calls_dropout d e"
    unfolding ep v using t(3) tm ge l
    by (simp add: epoch_calls_dropout_def training_step_calls_def length_DataLoader)
  moreover have "stdout (epoch_dropout fw d e s)
           = stdout s @ [100 * batch_mean_accuracy fw
                           (the_model (training_epoch fw d e (learned s))) (test_order d e)]"
    unfolding m2 [symmetric] unfolding ep v by simp
  moreover have "learned (epoch_dropout fw d e s) = training_epoch fw d e (learned s)"
    unfolding le [symmetric] unfolding ep v by (simp add: learned_def)
  ultimately show ?thesis by blast
qed

lemma training_epochs_Suc:
  "training_epochs fw d (Suc n) L = training_epoch fw d n (training_epochs fw d n L)"
  by (simp add: training_epochs_def)

lemma first_epochs_dropout_ok:
  assumes ks: "keeps_shapes fw" and r: "ready17 s"
    and dat: "\<And>e. e < n \<Longrightarrow> list_all wf_example (train_order d e) \<and>
                   list_all wf_example (test_order d e) \<and> test_order d e \<noteq> []"
  shows "ready17 (first_epochs_dropout fw d n s) \<and>
         trace (first_epochs_dropout fw d n s)
           = trace s @ concat (map (epoch_calls_dropout d) [0..<n]) \<and>
         stdout (first_epochs_dropout fw d n s)
           = stdout s @ map (\<lambda>e. 100 * batch_mean_accuracy fw
                                  (the_model (training_epochs fw d (Suc e) (learned s)))
                                  (test_order d e)) [0..<n] \<and>
         learned (first_epochs_dropout fw d n s) = training_epochs fw d n (learned s)"
  using dat
proof (induction n)
  case 0
  then show ?case using r by (simp add: first_epochs_dropout_def training_epochs_def)
next
  case (Suc n)
  let ?t = "first_epochs_dropout fw d n s"
  have ih: "ready17 ?t" "trace ?t = trace s @ concat (map (epoch_calls_dropout d) [0..<n])"
    "stdout ?t = stdout s @ map (\<lambda>e. 100 * batch_mean_accuracy fw
                                  (the_model (training_epochs fw d (Suc e) (learned s)))
                                  (test_order d e)) [0..<n]"
    "learned ?t = training_epochs fw d n (learned s)"
    using Suc.IH Suc.prems by simp_all
  have dn: "list_all wf_example (train_order d n)" "list_all wf_example (test_order d n)"
    "test_order d n \<noteq> []"
    using Suc.prems [of n] by simp_all
  note step = epoch_dropout_ok [OF ks ih(1) dn]
  have "first_epochs_dropout fw d (Suc n) s = epoch_dropout fw d n ?t"
    by (simp add: first_epochs_dropout_def)
  with step ih(2,3,4) show ?case by (simp add: training_epochs_Suc)
qed

lemma run_cell17_ok:
  assumes "keeps_shapes fw" and "wf_parameters (l1, l2, l3, l4)" and "wf_data d"
  shows "raised (run_cell17 fw d (l1, l2, l3, l4) g st) = None \<and>
         trace (run_cell17 fw d (l1, l2, l3, l4) g st)
           = concat (map (epoch_calls_dropout d) [0..<10]) \<and>
         learned (run_cell17 fw d (l1, l2, l3, l4) g st)
           = training_epochs fw d 10
               \<lparr>the_model = \<lparr>fc1 = l1, fc2 = l2, fc3 = l3, fc4 = l4, dropout_p = Some (2 / 10),
                              training = True\<rparr>,
                the_grads = g, the_optimizer = st, the_loss = 0\<rparr> \<and>
         stdout (run_cell17 fw d (l1, l2, l3, l4) g st)
           = map (\<lambda>e. 100 * batch_mean_accuracy fw
                    (the_model (training_epochs fw d (Suc e)
                       \<lparr>the_model = \<lparr>fc1 = l1, fc2 = l2, fc3 = l3, fc4 = l4,
                                      dropout_p = Some (2 / 10), training = True\<rparr>,
                        the_grads = g, the_optimizer = st, the_loss = 0\<rparr>))
                    (test_order d e)) [0..<10]"
proof -
  let ?s = "start (Classifier_dropout l1 l2 l3 l4) g st"
  have r: "ready17 ?s"
    using assms(2)
    by (simp add: ready17_def start_def Classifier_dropout_def wf_parameters_def wf_classifier_def)
  have "trace ?s = []" "stdout ?s = []" by (simp_all add: start_def)
  with first_epochs_dropout_ok [OF assms(1) r wf_data_nth [OF assms(3)], of epochs]
  show ?thesis
    by (simp add: run_cell17_def ready17_def epochs_def learned_start Classifier_dropout_def)
qed

text \<open>
  C4.  In every run of cell 17, also one that an exception cuts short, each forward pass of
  the training loop is made with the model in training mode and each forward pass of the
  validation loop with the model in evaluation mode.  In a run on well-formed data with an
  optimizer that keeps the shapes, nothing is raised and every epoch makes its calls in this
  order: the training steps, \<open>model.eval()\<close>, the validation forward passes, the printout,
  \<open>model.train()\<close>; so the model is back in training mode before the next epoch's training
  batches.  Dropout is active in every training forward pass: what the run leaves in the
  model, the gradient buffers, the optimizer and the running loss is what the training steps
  of a model with \<open>dropout_p = 0.2\<close> produce, the loss of each step being that of the
  log-probabilities computed with the three dropout masks of the step applied.  Dropout is
  inactive in every validation forward pass: the accuracy printed in epoch \<open>e\<close> is that of
  the predictions of the layers \<open>fc1\<close> to \<open>fc4\<close> alone, without any mask, as they are after
  the training steps of epochs \<open>0\<close> to \<open>e\<close>.
\<close>

theorem C4_dropout_modes:
  "list_all mode_ok (trace (run_cell17 fw d (l1, l2, l3, l4) g st)) \<and>
   (keeps_shapes fw \<and> wf_parameters (l1, l2, l3, l4) \<and> wf_data d \<longrightarrow>
      raised (run_cell17 fw d (l1, l2, l3, l4) g st) = None \<and>
      trace (run_cell17 fw d (l1, l2, l3, l4) g st)
        = concat (map (epoch_calls_dropout d) [0..<10]) \<and>
      learned (run_cell17 fw d (l1, l2, l3, l4) g st)
        = training_epochs fw d 10
            \<lparr>the_model = \<lparr>fc1 = l1, fc2 = l2, fc3 = l3, fc4 = l4, dropout_p = Some (2 / 10),
                           training = True\<rparr>,
             the_grads = g, the_optimizer = st, the_loss = 0\<rparr> \<and>
      stdout (run_cell17 fw d (l1, l2, l3, l4) g st)
        = map (\<lambda>e. 100 * batch_mean_accuracy fw
                 (the_model (training_epochs fw d (Suc e)
                    \<lparr>the_model = \<lparr>fc1 = l1, fc2 = l2, fc3 = l3, fc4 = l4,
                                   dropout_p = Some (2 / 10), training = True\<rparr>,
                     the_grads = g, the_optimizer = st, the_loss = 0\<rparr>))
                 (test_order d e)) [0..<10])"
  using run_cell17_mode [of fw d "(l1, l2, l3, l4)" g st] run_cell17_ok [of fw l1 l2 l3 l4 d g st]
  by blast

theorem C4_dropout_modes_witness:
  "list_all mode_ok (trace (run_cell17 demo_framework demo_draws demo_layers () ())) \<and>
   keeps_shapes demo_framework \<and> wf_parameters demo_layers \<and> wf_data demo_draws \<and>
   raised (run_cell17 demo_framework demo_draws demo_layers () ()) = None \<and>
   trace (run_cell17 demo_framework demo_draws demo_layers () ())
     = concat (map (epoch_calls_dropout demo_draws) [0..<10]) \<and>
   learned (run_cell17 demo_framework demo_draws demo_layers () ())
     = training_epochs demo_framework demo_draws 10
         \<lparr>the_model = \<lparr>fc1 = const_linear 784 (replicate 256 0),
                        fc2 = const_linear 256 (replicate 128 0),
                        fc3 = const_linear 128 (replicate 64 0),
                        fc4 = const_linear 64 [1 / 10, 0, 0, 0, 0, 0, 0, 0, 0, 0],
                        dropout_p = Some (2 / 10), training = True\<rparr>,
          the_grads = (), the_optimizer = (), the_loss = 0\<rparr> \<and>
   stdout (run_cell17 demo_framework demo_draws demo_layers () ())
     = map (\<lambda>e. 100 * batch_mean_accuracy demo_framework
              (the_model (training_epochs demo_framework demo_draws (Suc e)
                 \<lparr>the_model = \<lparr>fc1 = const_linear 784 (replicate 256 0),
                                fc2 = const_linear 256 (replicate 128 0),
                                fc3 = const_linear 128 (replicate 64 0),
                                fc4 = const_linear 64 [1 / 10, 0, 0, 0, 0, 0, 0, 0, 0, 0],
                                dropout_p = Some (2 / 10), training = True\<rparr>,
                  the_grads = (), the_optimizer = (), the_loss = 0\<rparr>))
              (test_order demo_draws e)) [0..<10]"
proof -
  note w = wf_demo_layers [unfolded demo_layers_def]
  note c4 = C4_dropout_modes [of demo_framework demo_draws
      "const_linear 784 (replicate 256 0)" "const_linear 256 (replicate 128 0)"
      "const_linear 128 (replicate 64 0)" "const_linear 64 [1 / 10, 0, 0, 0, 0, 0, 0, 0, 0, 0]"
      "()" "()"]
  from c4 keeps_shapes_demo w wf_data_demo show ?thesis
    unfolding demo_layers_def by blast
qed

section \<open>Dropout in evaluation mode\<close>

text \<open>
  C3.  With the same weights and biases on \<open>fc1\<close> to \<open>fc4\<close>, the dropout Classifier in
  evaluation mode returns on every input batch, and for every random draw, exactly what the
  Classifier without dropout returns (an exception included).
\<close>

theorem C3_dropout_eval_equals_plain:
  "call_model (eval_mode (Classifier_dropout l1 l2 l3 l4)) ks x
     = call_model (Classifier l1 l2 l3 l4) ks' x"
  by (simp add: call_model_def eval_mode_def Classifier_def Classifier_dropout_def
      forward_dropout_def forward_def dropout_eval)

end
